theory Spec2Isabelle
  imports Main
begin

section \<open>Exception group traceback formatting\<close>

text \<open>
  A shallow embedding of \<^verbatim>\<open>src/exceptiongroup/_formatting.py\<close>: the print context
  \<^verbatim>\<open>_ExceptionPrintContext\<close> and the generator \<^verbatim>\<open>traceback_exception_format\<close>.

  Python strings are modelled as \<^typ>\<open>string\<close>; a \<^typ>\<open>char\<close> stands for a code point below
  256. A generator is modelled by the list of the strings it yields, in order, together
  with the print context it leaves behind once it is exhausted.
\<close>

subsection \<open>Module constants\<close>

definition max_group_width :: int where
  "max_group_width = 15"

definition max_group_depth :: int where
  "max_group_depth = 10"

definition cause_message :: string where
  "cause_message =
     ''\<newline>The above exception was the direct cause of the following exception:\<newline>\<newline>''"

definition context_message :: string where
  "context_message =
     ''\<newline>During handling of the above exception, another exception occurred:\<newline>\<newline>''"

subsection \<open>Library functions used by the module\<close>

text \<open>
  \<^verbatim>\<open>str.splitlines(True)\<close>: the line boundaries among the code points below 256 are
  LF, VT, FF, CR, FS, GS, RS and NEL, and CR LF counts as one boundary. The first argument
  is the line read so far.
\<close>

definition is_linebreak :: "char \<Rightarrow> bool" where
  "is_linebreak c \<longleftrightarrow>
     c \<in> {CHR 0x0A, CHR 0x0B, CHR 0x0C, CHR 0x0D, CHR 0x1C, CHR 0x1D, CHR 0x1E, CHR 0x85}"

fun splitlines_from :: "string \<Rightarrow> string \<Rightarrow> string list" where
  "splitlines_from cur [] = (if cur = [] then [] else [cur])"
| "splitlines_from cur [c] = [cur @ [c]]"
| "splitlines_from cur (c # d # cs) =
     (if c = CHR 0x0D \<and> d = CHR 0x0A then (cur @ [c, d]) # splitlines_from [] cs
      else if is_linebreak c then (cur @ [c]) # splitlines_from [] (d # cs)
      else splitlines_from (cur @ [c]) (d # cs))"

definition splitlines :: "string \<Rightarrow> string list" where
  "splitlines text = splitlines_from [] text"

text \<open>\<^verbatim>\<open>textwrap.indent(text, prefix, lambda line: True)\<close>: every line gets the prefix.\<close>

definition textwrap_indent :: "string \<Rightarrow> string \<Rightarrow> string" where
  "textwrap_indent text prefix = concat (map (\<lambda>line. prefix @ line) (splitlines text))"

text \<open>\<^verbatim>\<open>str(n)\<close> for an integer, as the f-strings of the module use it.\<close>

fun digits10 :: "nat \<Rightarrow> string" where
  "digits10 n =
     (if n < 10 then [''0123456789'' ! n]
      else digits10 (n div 10) @ [''0123456789'' ! (n mod 10)])"

definition str_int :: "int \<Rightarrow> string" where
  "str_int i = (if i < 0 then CHR ''-'' # digits10 (nat (- i)) else digits10 (nat i))"

datatype error = AssertionError | IndexError

text \<open>
  Subscription \<^verbatim>\<open>xs[i]\<close> of a list by an integer: an index from \<open>-len(xs)\<close> up to
  \<open>-1\<close> is taken from the end, and any index outside \<open>-len(xs) .. len(xs) - 1\<close>
  raises \<^verbatim>\<open>IndexError\<close>.
\<close>

definition getitem :: "'a list \<Rightarrow> int \<Rightarrow> error + 'a" where
  "getitem xs i =
     (if 0 \<le> i \<and> i < int (length xs) then Inr (xs ! nat i)
      else if i < 0 \<and> - int (length xs) \<le> i then Inr (xs ! nat (int (length xs) + i))
      else Inl IndexError)"

subsection \<open>The captured exception\<close>

text \<open>
  The fields of \<^verbatim>\<open>traceback.TracebackException\<close> that the formatter reads. The object is
  built by the standard library and by \<^verbatim>\<open>traceback_exception_init\<close>; here it is given.
  \<^item> \<open>exc_cause\<close>, \<open>exc_context\<close>, \<open>suppress_context\<close>: \<^verbatim>\<open>__cause__\<close>, \<^verbatim>\<open>__context__\<close>,
    \<^verbatim>\<open>__suppress_context__\<close>;
  \<^item> \<open>exceptions\<close>: \<^verbatim>\<open>None\<close> for a plain exception, the captured sub-exceptions of a group;
  \<^item> \<open>stack\<close>: the stack summary, each entry carried as the string that
    \<^verbatim>\<open>stack.format()\<close> gives for it; the empty summary is falsy;
  \<^item> \<open>exception_only\<close>: the strings that \<^verbatim>\<open>format_exception_only()\<close> yields.
\<close>

datatype TracebackException = TracebackException
  (exc_cause: "TracebackException option")
  (exc_context: "TracebackException option")
  (suppress_context: bool)
  (exceptions: "TracebackException list option")
  (stack: "string list")
  (exception_only: "string list")

subsection \<open>The print context\<close>

record ExceptionPrintContext =
  seen :: "nat set"
  exception_group_depth :: int
  need_close :: bool

definition new_context :: ExceptionPrintContext where
  "new_context = \<lparr>seen = {}, exception_group_depth = 0, need_close = False\<rparr>"

definition indent :: "ExceptionPrintContext \<Rightarrow> string" where
  "indent ctx = replicate (nat (2 * exception_group_depth ctx)) CHR '' ''"

text \<open>The argument of \<^verbatim>\<open>emit\<close> is one string or an iterable of strings.\<close>

datatype text_gen = Str string | Strs "string list"

definition emit :: "ExceptionPrintContext \<Rightarrow> text_gen \<Rightarrow> string option \<Rightarrow> string list" where
  "emit ctx text_gen margin_char =
     (let margin_char = (case margin_char of None \<Rightarrow> ''|'' | Some m \<Rightarrow> m);
          indent_str = indent ctx;
          indent_str = (if exception_group_depth ctx \<noteq> 0
                        then indent_str @ margin_char @ '' '' else indent_str)
      in case text_gen of
           Str text \<Rightarrow> [textwrap_indent text indent_str]
         | Strs texts \<Rightarrow> map (\<lambda>text. textwrap_indent text indent_str) texts)"

subsection \<open>The chain walk\<close>

text \<open>
  The \<^verbatim>\<open>while exc:\<close> loop of \<^verbatim>\<open>traceback_exception_format\<close>: the list \<^verbatim>\<open>output\<close> in the
  order of the appends.
\<close>

fun chain_walk :: "TracebackException \<Rightarrow> (string option \<times> TracebackException) list" where
  "chain_walk (TracebackException cs cx sc excs st eo) =
     (case cs of
        Some chained_exc \<Rightarrow>
          (Some cause_message, TracebackException cs cx sc excs st eo) # chain_walk chained_exc
      | None \<Rightarrow>
          (case cx of
             Some chained_exc \<Rightarrow>
               if \<not> sc
               then (Some context_message, TracebackException cs cx sc excs st eo)
                      # chain_walk chained_exc
               else [(None, TracebackException cs cx sc excs st eo)]
           | None \<Rightarrow> [(None, TracebackException cs cx sc excs st eo)]))"

definition chain_output :: "bool \<Rightarrow> TracebackException \<Rightarrow> (string option \<times> TracebackException) list" where
  "chain_output chain exc = (if chain then chain_walk exc else [(None, exc)])"

subsection \<open>The formatter\<close>

type_synonym yielded = "error + string list \<times> ExceptionPrintContext"

text \<open>The strings yielded so far, followed by what the rest of the generator does.\<close>

definition yield_then :: "string list \<Rightarrow> yielded \<Rightarrow> yielded" where
  "yield_then out r = (case r of Inl e \<Rightarrow> Inl e | Inr (out', ctx) \<Rightarrow> Inr (out @ out', ctx))"

definition chain_size :: "(string option \<times> TracebackException) list \<Rightarrow> nat" where
  "chain_size ps = foldr (\<lambda>p m. max (size (snd p)) m) ps 0"

text \<open>Size bounds for the termination proof of the formatter.\<close>

lemma chain_walk_size: "p \<in> set (chain_walk exc) \<Longrightarrow> size (snd p) \<le> size exc"
  by (induction exc arbitrary: p rule: chain_walk.induct)
     (fastforce split: option.splits if_splits)

lemma chain_size_bound: "(\<And>p. p \<in> set ps \<Longrightarrow> size (snd p) \<le> k) \<Longrightarrow> chain_size ps \<le> k"
  by (induction ps) (auto simp: chain_size_def)

lemma chain_size_output: "chain_size (rev (chain_output chain exc)) \<le> size exc"
  by (rule chain_size_bound) (auto simp: chain_output_def dest: chain_walk_size split: if_splits)

lemma getitem_size: "getitem excs i = Inr child \<Longrightarrow> size child < size_list size excs"
proof -
  assume "getitem excs i = Inr child"
  then have "child \<in> set excs"
    by (auto simp: getitem_def split: if_splits)
  then show ?thesis
    by (induction excs) auto
qed

lemma exceptions_size: "exceptions exc = Some excs \<Longrightarrow> size_list size excs < size exc"
  by (cases exc) simp

text \<open>
  \<^verbatim>\<open>traceback_exception_format\<close> with the print context in hand (\<open>format_exc\<close>), its loop
  over \<^verbatim>\<open>reversed(output)\<close> (\<open>format_blocks\<close>) and its loop over \<^verbatim>\<open>range(n)\<close>
  (\<open>format_slots\<close>). The module looks \<^verbatim>\<open>max_group_width\<close> and \<^verbatim>\<open>max_group_depth\<close> up at
  every use; they are the parameters \<open>mgw\<close> and \<open>mgd\<close>. \<open>Inl\<close> is an exception raised
  by the generator: the \<^verbatim>\<open>assert\<close> that fails, or an index out of range.
\<close>

function
  format_exc :: "int \<Rightarrow> int \<Rightarrow> bool \<Rightarrow> ExceptionPrintContext \<Rightarrow> TracebackException \<Rightarrow> yielded"
and
  format_blocks :: "int \<Rightarrow> int \<Rightarrow> bool \<Rightarrow> ExceptionPrintContext
     \<Rightarrow> (string option \<times> TracebackException) list \<Rightarrow> yielded"
and
  format_slots :: "int \<Rightarrow> int \<Rightarrow> bool \<Rightarrow> ExceptionPrintContext
     \<Rightarrow> TracebackException list \<Rightarrow> int \<Rightarrow> int \<Rightarrow> int \<Rightarrow> yielded"
where
  "format_exc mgw mgd chain ctx exc =
     format_blocks mgw mgd chain ctx (rev (chain_output chain exc))"
| "format_blocks mgw mgd chain ctx [] = Inr ([], ctx)"
| "format_blocks mgw mgd chain ctx ((msg, exc) # rest) =
     (let out_msg = (case msg of None \<Rightarrow> [] | Some m \<Rightarrow> emit ctx (Str m) None)
      in case exceptions exc of
           None \<Rightarrow>
             yield_then
               (out_msg
                @ (if stack exc \<noteq> []
                   then emit ctx (Str ''Traceback (most recent call last):\<newline>'') None
                        @ emit ctx (Strs (stack exc)) None
                   else [])
                @ emit ctx (Strs (exception_only exc)) None)
               (format_blocks mgw mgd chain ctx rest)
         | Some excs \<Rightarrow>
             if exception_group_depth ctx > mgd
             then yield_then
                    (out_msg
                     @ emit ctx (Str (''... (max_group_depth is '' @ str_int mgd @ '')\<newline>'')) None)
                    (format_blocks mgw mgd chain ctx rest)
             else
               (let is_toplevel = (exception_group_depth ctx = 0);
                    ctx1 = (if is_toplevel
                            then ctx\<lparr>exception_group_depth := exception_group_depth ctx + 1\<rparr>
                            else ctx);
                    out_head =
                      (if stack exc \<noteq> []
                       then emit ctx1 (Str ''Exception Group Traceback (most recent call last):\<newline>'')
                              (if is_toplevel then Some ''+'' else None)
                            @ emit ctx1 (Strs (stack exc)) None
                       else [])
                      @ emit ctx1 (Strs (exception_only exc)) None;
                    num_excs = int (length excs);
                    n = (if num_excs \<le> mgw then num_excs else mgw + 1);
                    ctx2 = ctx1\<lparr>need_close := False\<rparr>
                in case format_slots mgw mgd chain ctx2 excs num_excs n 0 of
                     Inl e \<Rightarrow> Inl e
                   | Inr (out_slots, ctx3) \<Rightarrow>
                       if is_toplevel
                       then if exception_group_depth ctx3 = 1
                            then yield_then (out_msg @ out_head @ out_slots)
                                   (format_blocks mgw mgd chain
                                      (ctx3\<lparr>exception_group_depth := 0\<rparr>) rest)
                            else Inl AssertionError
                       else yield_then (out_msg @ out_head @ out_slots)
                              (format_blocks mgw mgd chain ctx3 rest)))"
| "format_slots mgw mgd chain ctx excs num_excs n i =
     (if i < n
      then
        (let last_exc = (i = n - 1);
             ctx1 = (if last_exc then ctx\<lparr>need_close := True\<rparr> else ctx);
             truncated = (i \<ge> mgw);
             title = (if \<not> truncated then str_int (i + 1) else ''...'');
             header = indent ctx1 @ (if i = 0 then ''+-'' else ''  '')
                      @ ''+---------------- '' @ title @ '' ----------------\<newline>'';
             ctx2 = ctx1\<lparr>exception_group_depth := exception_group_depth ctx1 + 1\<rparr>
         in case (if \<not> truncated
                  then (case getitem excs i of
                          Inl e \<Rightarrow> Inl e
                        | Inr child \<Rightarrow> format_exc mgw mgd chain ctx2 child)
                  else (let remaining = num_excs - mgw;
                            plural = (if remaining > 1 then ''s'' else [])
                        in Inr (emit ctx2
                                  (Str (''and '' @ str_int remaining @ '' more exception''
                                        @ plural @ ''\<newline>'')) None,
                                ctx2)))
            of
              Inl e \<Rightarrow> Inl e
            | Inr (body, ctx3) \<Rightarrow>
                (let closing = (if last_exc \<and> need_close ctx3
                                then [indent ctx3 @ ''+------------------------------------\<newline>'']
                                else []);
                     ctx4 = (if last_exc \<and> need_close ctx3
                             then ctx3\<lparr>need_close := False\<rparr> else ctx3);
                     ctx5 = ctx4\<lparr>exception_group_depth := exception_group_depth ctx4 - 1\<rparr>
                 in yield_then (header # body @ closing)
                      (format_slots mgw mgd chain ctx5 excs num_excs n (i + 1))))
      else Inr ([], ctx))"
  by pat_completeness auto

termination
proof (relation "inv_image (less_than <*lex*> less_than <*lex*> less_than)
    (\<lambda>x. case x of
       Inl (mgw, mgd, chain, ctx, exc) \<Rightarrow> (size exc, 3::nat, 0::nat)
     | Inr (Inl (mgw, mgd, chain, ctx, ps)) \<Rightarrow> (chain_size ps, 2, length ps)
     | Inr (Inr (mgw, mgd, chain, ctx, excs, num_excs, n, i)) \<Rightarrow>
         (size_list size excs, 0, nat (n - i)))", goal_cases)
  case 1
  show ?case by (intro wf_inv_image wf_lex_prod wf_less_than)
next
  case (2 mgw mgd chain ctx exc)
  show ?case using chain_size_output[of chain exc] by auto
qed (auto simp: chain_size_def dest: getitem_size exceptions_size)

text \<open>
  The entry point: \<^verbatim>\<open>_ctx\<close> is \<^verbatim>\<open>None\<close> or a print context, and the limits are the
  values the module gives them.
\<close>

definition traceback_exception_format ::
  "TracebackException \<Rightarrow> bool \<Rightarrow> ExceptionPrintContext option \<Rightarrow> yielded" where
  "traceback_exception_format self chain ctx_opt =
     (let ctx = (case ctx_opt of None \<Rightarrow> new_context | Some c \<Rightarrow> c)
      in format_exc max_group_width max_group_depth chain ctx self)"

subsection \<open>The parts of one loop iteration\<close>

text \<open>
  Names for the pieces of the two loop bodies, so that the recursion equations can be
  stated one iteration at a time.
\<close>

definition msg_out :: "ExceptionPrintContext \<Rightarrow> string option \<Rightarrow> string list" where
  "msg_out ctx msg = (case msg of None \<Rightarrow> [] | Some m \<Rightarrow> emit ctx (Str m) None)"

definition leaf_out :: "ExceptionPrintContext \<Rightarrow> TracebackException \<Rightarrow> string list" where
  "leaf_out ctx exc =
     (if stack exc \<noteq> []
      then emit ctx (Str ''Traceback (most recent call last):\<newline>'') None
           @ emit ctx (Strs (stack exc)) None
      else [])
     @ emit ctx (Strs (exception_only exc)) None"

definition depth_out :: "int \<Rightarrow> ExceptionPrintContext \<Rightarrow> string list" where
  "depth_out mgd ctx =
     emit ctx (Str (''... (max_group_depth is '' @ str_int mgd @ '')\<newline>'')) None"

definition group_enter :: "ExceptionPrintContext \<Rightarrow> ExceptionPrintContext" where
  "group_enter ctx =
     (if exception_group_depth ctx = 0
      then ctx\<lparr>exception_group_depth := exception_group_depth ctx + 1\<rparr> else ctx)"

definition group_head :: "ExceptionPrintContext \<Rightarrow> TracebackException \<Rightarrow> string list" where
  "group_head ctx exc =
     (if stack exc \<noteq> []
      then emit (group_enter ctx) (Str ''Exception Group Traceback (most recent call last):\<newline>'')
             (if exception_group_depth ctx = 0 then Some ''+'' else None)
           @ emit (group_enter ctx) (Strs (stack exc)) None
      else [])
     @ emit (group_enter ctx) (Strs (exception_only exc)) None"

definition slot_count :: "int \<Rightarrow> TracebackException list \<Rightarrow> int" where
  "slot_count mgw excs =
     (if int (length excs) \<le> mgw then int (length excs) else mgw + 1)"

definition slot_enter :: "int \<Rightarrow> int \<Rightarrow> ExceptionPrintContext \<Rightarrow> ExceptionPrintContext" where
  "slot_enter n i ctx =
     (let ctx1 = (if i = n - 1 then ctx\<lparr>need_close := True\<rparr> else ctx)
      in ctx1\<lparr>exception_group_depth := exception_group_depth ctx1 + 1\<rparr>)"

definition slot_header :: "int \<Rightarrow> int \<Rightarrow> ExceptionPrintContext \<Rightarrow> string" where
  "slot_header mgw i ctx =
     indent ctx @ (if i = 0 then ''+-'' else ''  '') @ ''+---------------- ''
     @ (if \<not> mgw \<le> i then str_int (i + 1) else ''...'') @ '' ----------------\<newline>''"

definition more_out :: "int \<Rightarrow> ExceptionPrintContext \<Rightarrow> string list" where
  "more_out remaining ctx =
     emit ctx (Str (''and '' @ str_int remaining @ '' more exception''
                    @ (if remaining > 1 then ''s'' else []) @ ''\<newline>'')) None"

definition slot_body ::
  "int \<Rightarrow> int \<Rightarrow> bool \<Rightarrow> ExceptionPrintContext \<Rightarrow> TracebackException list \<Rightarrow> int \<Rightarrow> int \<Rightarrow> yielded" where
  "slot_body mgw mgd chain ctx2 excs num_excs i =
     (if \<not> mgw \<le> i
      then (case getitem excs i of
              Inl e \<Rightarrow> Inl e
            | Inr child \<Rightarrow> format_exc mgw mgd chain ctx2 child)
      else Inr (more_out (num_excs - mgw) ctx2, ctx2))"

definition slot_closing :: "int \<Rightarrow> int \<Rightarrow> ExceptionPrintContext \<Rightarrow> string list" where
  "slot_closing n i ctx3 =
     (if i = n - 1 \<and> need_close ctx3
      then [indent ctx3 @ ''+------------------------------------\<newline>''] else [])"

definition slot_leave :: "int \<Rightarrow> int \<Rightarrow> ExceptionPrintContext \<Rightarrow> ExceptionPrintContext" where
  "slot_leave n i ctx3 =
     (let ctx4 = (if i = n - 1 \<and> need_close ctx3 then ctx3\<lparr>need_close := False\<rparr> else ctx3)
      in ctx4\<lparr>exception_group_depth := exception_group_depth ctx4 - 1\<rparr>)"

definition margin_prefix :: "ExceptionPrintContext \<Rightarrow> string \<Rightarrow> string" where
  "margin_prefix ctx margin_char =
     (if exception_group_depth ctx \<noteq> 0 then indent ctx @ margin_char @ '' '' else indent ctx)"

definition restores :: "ExceptionPrintContext \<Rightarrow> yielded \<Rightarrow> bool" where
  "restores ctx r =
     (case r of
        Inl e \<Rightarrow> False
      | Inr (out, ctx') \<Rightarrow>
          exception_group_depth ctx' = exception_group_depth ctx \<and> seen ctx' = seen ctx)"

definition margin_of :: "string option \<Rightarrow> string" where
  "margin_of margin_char = (case margin_char of None \<Rightarrow> ''|'' | Some m \<Rightarrow> m)"

definition yield_from :: "yielded \<Rightarrow> (ExceptionPrintContext \<Rightarrow> yielded) \<Rightarrow> yielded" where
  "yield_from r k = (case r of Inl e \<Rightarrow> Inl e | Inr (out, ctx) \<Rightarrow> yield_then out (k ctx))"

fun nested_group :: "string list list \<Rightarrow> TracebackException \<Rightarrow> TracebackException" where
  "nested_group [] inner = inner"
| "nested_group (eo # eos) inner =
     TracebackException None None False (Some [nested_group eos inner]) [] eo"

fun nested_out :: "nat \<Rightarrow> string list list \<Rightarrow> string list" where
  "nested_out d [] = [replicate (2 * d) CHR '' '' @ ''| ... (max_group_depth is 10)\<newline>'']"
| "nested_out d (eo # eos) =
     map (\<lambda>t. textwrap_indent t (replicate (2 * d) CHR '' '' @ ''| '')) eo
     @ [replicate (2 * d) CHR '' '' @ ''+-+---------------- 1 ----------------\<newline>'']
     @ nested_out (Suc d) eos
     @ (if eos = []
        then [replicate (2 * Suc d) CHR '' '' @ ''+------------------------------------\<newline>'']
        else [])"

definition followed_link :: "TracebackException \<Rightarrow> (string \<times> TracebackException) option" where
  "followed_link exc =
     (case exc_cause exc of
        Some c \<Rightarrow> Some (cause_message, c)
      | None \<Rightarrow>
          (case exc_context exc of
             Some c \<Rightarrow> if suppress_context exc then None else Some (context_message, c)
           | None \<Rightarrow> None))"

definition spaces :: "nat \<Rightarrow> string" where
  "spaces e = replicate (2 * e) CHR '' ''"

definition margin_line :: "nat \<Rightarrow> string \<Rightarrow> bool" where
  "margin_line e l = (\<exists>rest. l = spaces e @ ''| '' @ rest)"

definition header_line :: "nat \<Rightarrow> string \<Rightarrow> bool" where
  "header_line e l =
     (\<exists>title. (title = ''...'' \<or> (\<exists>k. title = str_int k)) \<and>
        (l = spaces e @ ''+-+---------------- '' @ title @ '' ----------------\<newline>''
         \<or> l = spaces e @ ''  +---------------- '' @ title @ '' ----------------\<newline>''))"

definition closing_line :: "nat \<Rightarrow> string \<Rightarrow> bool" where
  "closing_line e l = (l = spaces e @ ''+------------------------------------\<newline>'')"

definition framed :: "nat \<Rightarrow> string \<Rightarrow> bool" where
  "framed d l = (\<exists>e\<ge>d. margin_line e l \<or> header_line e l \<or> closing_line e l)"

definition all_framed :: "nat \<Rightarrow> string list \<Rightarrow> bool" where
  "all_framed d out = (\<forall>b \<in> set out. \<forall>l \<in> set (splitlines b). framed d l)"

definition framed_result :: "nat \<Rightarrow> yielded \<Rightarrow> bool" where
  "framed_result d r = (case r of Inl e \<Rightarrow> True | Inr (out, ctx) \<Rightarrow> all_framed d out)"

definition lead :: "string \<Rightarrow> nat" where
  "lead l = length (takeWhile (\<lambda>c. c = CHR '' '') l)"

definition strip :: "string \<Rightarrow> string" where
  "strip l = dropWhile (\<lambda>c. c = CHR '' '') l"

text \<open>
  The formatter once more, with every yielded string paired with the depth of the print
  context that it was built from: the context given to \<open>emit\<close>, the context whose
  \<open>indent\<close> starts a slot header, the context whose \<open>indent\<close> starts the closing
  line. Dropping the depths gives the strings of \<open>format_exc\<close> (lemma
  \<open>traced_erase\<close>).
\<close>

type_synonym traced = "error + (int \<times> string) list \<times> ExceptionPrintContext"

definition tag :: "ExceptionPrintContext \<Rightarrow> string list \<Rightarrow> (int \<times> string) list" where
  "tag ctx out = map (\<lambda>b. (exception_group_depth ctx, b)) out"

definition trace_then :: "(int \<times> string) list \<Rightarrow> traced \<Rightarrow> traced" where
  "trace_then items r =
     (case r of Inl e \<Rightarrow> Inl e | Inr (items', ctx) \<Rightarrow> Inr (items @ items', ctx))"

definition erase :: "traced \<Rightarrow> yielded" where
  "erase r = (case r of Inl e \<Rightarrow> Inl e | Inr (items, ctx) \<Rightarrow> Inr (map snd items, ctx))"


definition line_ok :: "int \<Rightarrow> string \<Rightarrow> bool" where
  "line_ok d l =
     (margin_line (nat d) l \<or> header_line (nat d) l \<or> closing_line (nat d) l
      \<or> (d = 1 \<and> l = ''  + Exception Group Traceback (most recent call last):\<newline>''))"

definition items_ok :: "(int \<times> string) list \<Rightarrow> bool" where
  "items_ok items =
     (\<forall>(d, b) \<in> set items. 0 < d \<longrightarrow> (\<forall>l \<in> set (splitlines b). line_ok d l))"

definition ok_result :: "traced \<Rightarrow> bool" where
  "ok_result r = (case r of Inl e \<Rightarrow> True | Inr (items, ctx) \<Rightarrow> items_ok items)"

subsection \<open>Unfolding the loops\<close>

declare format_slots.simps [simp del] format_blocks.simps(2) [simp del] format_exc.simps [simp del]

lemma yield_then_simps [simp]:
  "yield_then out (Inr (out', ctx)) = Inr (out @ out', ctx)"
  "yield_then out (Inl e) = Inl e"
  by (simp_all add: yield_then_def)

lemma format_blocks_unfold:
  "format_blocks mgw mgd chain ctx ((msg, exc) # rest) =
     (case exceptions exc of
        None \<Rightarrow>
          yield_then (msg_out ctx msg @ leaf_out ctx exc) (format_blocks mgw mgd chain ctx rest)
      | Some excs \<Rightarrow>
          if exception_group_depth ctx > mgd
          then yield_then (msg_out ctx msg @ depth_out mgd ctx)
                 (format_blocks mgw mgd chain ctx rest)
          else
            (case format_slots mgw mgd chain ((group_enter ctx)\<lparr>need_close := False\<rparr>) excs
                    (int (length excs)) (slot_count mgw excs) 0 of
               Inl e \<Rightarrow> Inl e
             | Inr (out_slots, ctx3) \<Rightarrow>
                 if exception_group_depth ctx = 0
                 then if exception_group_depth ctx3 = 1
                      then yield_then (msg_out ctx msg @ group_head ctx exc @ out_slots)
                             (format_blocks mgw mgd chain
                                (ctx3\<lparr>exception_group_depth := 0\<rparr>) rest)
                      else Inl AssertionError
                 else yield_then (msg_out ctx msg @ group_head ctx exc @ out_slots)
                        (format_blocks mgw mgd chain ctx3 rest)))"
  by (rule trans[OF format_blocks.simps(2)])
     (simp only: Let_def msg_out_def leaf_out_def depth_out_def group_enter_def group_head_def
        slot_count_def)

lemma indent_cong: "exception_group_depth c = exception_group_depth c' \<Longrightarrow> indent c = indent c'"
  by (simp add: indent_def)

lemma format_slots_unfold:
  "format_slots mgw mgd chain ctx excs num_excs n i =
     (if i < n
      then (case slot_body mgw mgd chain (slot_enter n i ctx) excs num_excs i of
              Inl e \<Rightarrow> Inl e
            | Inr (body, ctx3) \<Rightarrow>
                yield_then (slot_header mgw i ctx # body @ slot_closing n i ctx3)
                  (format_slots mgw mgd chain (slot_leave n i ctx3) excs num_excs n (i + 1)))
      else Inr ([], ctx))"
proof -
  have h: "indent (if i = n - 1 then ctx\<lparr>need_close := True\<rparr> else ctx) = indent ctx"
    by (rule indent_cong) simp
  show ?thesis
    by (rule trans[OF format_slots.simps])
       (simp only: Let_def h slot_enter_def slot_body_def more_out_def slot_header_def
          slot_closing_def slot_leave_def)
qed

lemma slot_enter_depth [simp]:
  "exception_group_depth (slot_enter n i ctx) = exception_group_depth ctx + 1"
  "seen (slot_enter n i ctx) = seen ctx"
  by (simp_all add: slot_enter_def Let_def)

lemma slot_leave_depth [simp]:
  "exception_group_depth (slot_leave n i ctx) = exception_group_depth ctx - 1"
  "seen (slot_leave n i ctx) = seen ctx"
  by (simp_all add: slot_leave_def Let_def)

lemma group_enter_depth:
  "exception_group_depth (group_enter ctx) =
     (if exception_group_depth ctx = 0 then 1 else exception_group_depth ctx)"
  "seen (group_enter ctx) = seen ctx"
  by (simp_all add: group_enter_def)

lemma restoresE:
  assumes "restores ctx r"
  obtains out ctx' where "r = Inr (out, ctx')"
    and "exception_group_depth ctx' = exception_group_depth ctx" and "seen ctx' = seen ctx"
  using assms by (auto simp: restores_def split: sum.splits)

lemma restores_yield_then:
  "restores ctx' r \<Longrightarrow> exception_group_depth ctx' = exception_group_depth ctx
   \<Longrightarrow> seen ctx' = seen ctx \<Longrightarrow> restores ctx (yield_then out r)"
  by (auto simp: restores_def split: sum.splits)

lemma getitem_in_range: "0 \<le> i \<Longrightarrow> i < int (length xs) \<Longrightarrow> getitem xs i = Inr (xs ! nat i)"
  by (simp add: getitem_def)

lemma slot_index_in_range:
  "0 \<le> i \<Longrightarrow> i < slot_count mgw excs \<Longrightarrow> \<not> mgw \<le> i \<Longrightarrow> i < int (length excs)"
  by (simp add: slot_count_def split: if_splits)

lemma format_restores:
  "restores ctx (format_exc mgw mgd chain ctx exc)"
  "restores ctx (format_blocks mgw mgd chain ctx ps)"
  "num_excs = int (length excs) \<Longrightarrow> n = slot_count mgw excs \<Longrightarrow> 0 \<le> i
   \<Longrightarrow> restores ctx (format_slots mgw mgd chain ctx excs num_excs n i)"
proof (induction mgw mgd chain ctx exc and mgw mgd chain ctx ps and mgw mgd chain ctx excs num_excs n i
    rule: format_exc_format_blocks_format_slots.induct)
  case (1 mgw mgd chain ctx exc)
  then show ?case by (simp add: format_exc.simps)
next
  case (2 mgw mgd chain ctx)
  then show ?case by (simp add: restores_def)
next
  case (3 mgw mgd chain ctx msg exc rest)
  show ?case
  proof (cases "exceptions exc")
    case None
    then show ?thesis
      using 3(1)[OF refl None] by (simp add: format_blocks_unfold restores_yield_then)
  next
    case (Some excs)
    show ?thesis
    proof (cases "mgd < exception_group_depth ctx")
      case True
      then show ?thesis
        using Some 3(2)[OF refl Some True] by (simp add: format_blocks_unfold restores_yield_then)
    next
      case False
      let ?ctx2 = "(group_enter ctx)\<lparr>need_close := False\<rparr>"
      let ?slots = "format_slots mgw mgd chain ?ctx2 excs (int (length excs)) (slot_count mgw excs) 0"
      have "restores ?ctx2 ?slots"
        unfolding group_enter_def slot_count_def
        by (rule 3(3)[OF refl Some False refl refl refl refl refl refl refl])
           (simp_all add: slot_count_def)
      then obtain out3 ctx3 where r: "?slots = Inr (out3, ctx3)"
        and d: "exception_group_depth ctx3 = exception_group_depth ?ctx2"
        and s: "seen ctx3 = seen ?ctx2"
        by (rule restoresE)
      show ?thesis
      proof (cases "exception_group_depth ctx = 0")
        case True
        have d1: "exception_group_depth ctx3 = 1"
          using d True by (simp add: group_enter_def)
        have "restores (ctx3\<lparr>exception_group_depth := 0\<rparr>)
                (format_blocks mgw mgd chain (ctx3\<lparr>exception_group_depth := 0\<rparr>) rest)"
          by (rule 3(4)[OF refl Some False refl refl refl refl refl refl
                r[unfolded group_enter_def slot_count_def] refl True d1])
        then show ?thesis
          using Some False True r d1 s
          by (simp add: format_blocks_unfold restores_yield_then group_enter_depth)
      next
        case nt: False
        have "restores ctx3 (format_blocks mgw mgd chain ctx3 rest)"
          by (rule 3(5)[OF refl Some False refl refl refl refl refl refl
                r[unfolded group_enter_def slot_count_def] refl nt])
        then show ?thesis
          using Some False nt r d s
          by (simp add: format_blocks_unfold restores_yield_then group_enter_depth)
      qed
    qed
  qed
next
  case (4 mgw mgd chain ctx excs num_excs n i)
  show ?case
  proof (cases "i < n")
    case False
    then show ?thesis by (simp add: format_slots_unfold restores_def)
  next
    case True
    let ?ctx2 = "slot_enter n i ctx"
    let ?body = "slot_body mgw mgd chain ?ctx2 excs num_excs i"
    have "restores ?ctx2 ?body"
    proof (cases "mgw \<le> i")
      case True
      then show ?thesis by (simp add: slot_body_def restores_def)
    next
      case False
      have "i < int (length excs)"
        using True False 4(4,5) by (simp add: slot_index_in_range)
      then have g: "getitem excs i = Inr (excs ! nat i)"
        using 4(5) by (simp add: getitem_in_range)
      have "restores ?ctx2 (format_exc mgw mgd chain ?ctx2 (excs ! nat i))"
        unfolding slot_enter_def Let_def
        by (rule 4(1)[OF True refl refl refl refl refl refl False g])
      then show ?thesis
        using g False by (simp add: slot_body_def)
    qed
    then obtain body ctx3 where r: "?body = Inr (body, ctx3)"
      and d: "exception_group_depth ctx3 = exception_group_depth ?ctx2"
      and s: "seen ctx3 = seen ?ctx2"
      by (rule restoresE)
    have "restores (slot_leave n i ctx3)
            (format_slots mgw mgd chain (slot_leave n i ctx3) excs num_excs n (i + 1))"
      unfolding slot_leave_def Let_def
    proof (rule 4(2)[OF True refl refl refl refl refl refl _ refl refl refl refl 4(3) 4(4)])
      show "0 \<le> i + 1" using 4(5) by simp
    next
      show "(if \<not> mgw \<le> i
             then case getitem excs i of Inl x \<Rightarrow> Inl x
                  | Inr x \<Rightarrow>
                      format_exc mgw mgd chain
                       ((if i = n - 1 then ctx\<lparr>need_close := True\<rparr> else ctx)
                        \<lparr>exception_group_depth :=
                           exception_group_depth
                            (if i = n - 1 then ctx\<lparr>need_close := True\<rparr> else ctx) + 1\<rparr>)
                       x
             else let remaining = num_excs - mgw;
                      plural = if 1 < remaining then ''s'' else []
                  in Inr (emit
                           ((if i = n - 1 then ctx\<lparr>need_close := True\<rparr> else ctx)
                            \<lparr>exception_group_depth :=
                               exception_group_depth
                                (if i = n - 1 then ctx\<lparr>need_close := True\<rparr> else ctx) + 1\<rparr>)
                           (Str (''and '' @ str_int remaining @ '' more exception'' @ plural
                                 @ ''\<newline>''))
                           None,
                          (if i = n - 1 then ctx\<lparr>need_close := True\<rparr> else ctx)
                          \<lparr>exception_group_depth :=
                             exception_group_depth
                              (if i = n - 1 then ctx\<lparr>need_close := True\<rparr> else ctx) + 1\<rparr>))
            = Inr (body, ctx3)"
        using r unfolding slot_body_def slot_enter_def more_out_def Let_def .
    qed
    then show ?thesis
      using True r d s
      by (simp add: format_slots_unfold[of _ _ _ ctx] restores_yield_then)
  qed
qed

subsection \<open>Lines and prefixes\<close>

lemma splitlines_from_plain:
  "\<forall>c \<in> set p. \<not> is_linebreak c \<Longrightarrow> splitlines_from cur (p @ t) = splitlines_from (cur @ p) t"
proof (induction p arbitrary: cur)
  case Nil
  then show ?case by simp
next
  case (Cons c p)
  then have c: "\<not> is_linebreak c" and p: "\<forall>c \<in> set p. \<not> is_linebreak c" by auto
  from c have cr: "c \<noteq> CHR 0x0D" by (auto simp: is_linebreak_def)
  show ?case
  proof (cases "p @ t")
    case Nil
    then show ?thesis by simp
  next
    case (Cons d ds)
    have "splitlines_from cur (c # p @ t) = splitlines_from (cur @ [c]) (p @ t)"
      using c cr by (simp add: Cons)
    also have "\<dots> = splitlines_from ((cur @ [c]) @ p) t"
      by (rule Cons.IH[OF p])
    finally show ?thesis by simp
  qed
qed

lemma concat_splitlines_from: "concat (splitlines_from cur t) = cur @ t"
  by (induction cur t rule: splitlines_from.induct) auto

lemma splitlines_from_nonempty: "cur @ t \<noteq> [] \<Longrightarrow> splitlines_from cur t \<noteq> []"
  by (induction cur t rule: splitlines_from.induct) auto

lemma splitlines_from_no_empty_line: "[] \<notin> set (splitlines_from cur t)"
  by (induction cur t rule: splitlines_from.induct) auto

lemma splitlines_from_break:
  assumes "is_linebreak c" and "\<not> (c = CHR 0x0D \<and> (\<exists>xs. X = CHR 0x0A # xs))"
  shows "splitlines_from cur (c # X) = (cur @ [c]) # splitlines_from [] X"
  using assms by (cases X) auto

lemma splitlines_from_indent:
  assumes P: "\<forall>c \<in> set P. \<not> is_linebreak c"
  shows "\<forall>c \<in> set cur. \<not> is_linebreak c \<Longrightarrow>
    splitlines_from [] (concat (map ((@) P) (splitlines_from cur t)))
      = map ((@) P) (splitlines_from cur t)"
proof (induction cur t rule: splitlines_from.induct)
  case (1 cur)
  then have "\<forall>c \<in> set (P @ cur). \<not> is_linebreak c" using P by auto
  from splitlines_from_plain[OF this, of "[]" "[]"] show ?case by auto
next
  case (2 cur c)
  then have "\<forall>c \<in> set (P @ cur). \<not> is_linebreak c" using P by auto
  from splitlines_from_plain[OF this, of "[]" "[c]"] show ?case by auto
next
  case (3 cur c d cs)
  have pc: "\<forall>c \<in> set (P @ cur). \<not> is_linebreak c" using P 3(4) by auto
  show ?case
  proof (cases "c = CHR 0x0D \<and> d = CHR 0x0A")
    case True
    let ?X = "concat (map ((@) P) (splitlines_from [] cs))"
    have "splitlines_from [] ((P @ cur) @ c # d # ?X) = splitlines_from (P @ cur) (c # d # ?X)"
      using splitlines_from_plain[OF pc, of "[]"] by simp
    also have "\<dots> = (P @ cur @ [c, d]) # splitlines_from [] ?X"
      using True by simp
    also have "splitlines_from [] ?X = map ((@) P) (splitlines_from [] cs)"
      using 3(1)[OF True] by simp
    finally show ?thesis using True by simp
  next
    case False
    show ?thesis
    proof (cases "is_linebreak c")
      case lb: True
      let ?G = "splitlines_from [] (d # cs)"
      let ?X = "concat (map ((@) P) ?G)"
      have G: "?G \<noteq> []" by (rule splitlines_from_nonempty) simp
      then obtain l ls where Gl: "?G = l # ls" by (cases ?G) auto
      have "concat ?G = d # cs" by (simp add: concat_splitlines_from)
      then have l: "l @ concat ls = d # cs" by (simp add: Gl)
      have "l \<noteq> []" using splitlines_from_no_empty_line[of "[]" "d # cs"] Gl by auto
      then have hdl: "hd l = d" using l by (cases l) auto
      have nolf: "\<not> (c = CHR 0x0D \<and> (\<exists>xs. ?X = CHR 0x0A # xs))"
      proof (cases P)
        case Nil
        have "map ((@) []) ?G = ?G" by (rule map_idI) simp
        then have "?X = d # cs" using concat_splitlines_from[of "[]" "d # cs"] Nil by simp
        then show ?thesis using False by auto
      next
        case (Cons p ps)
        then have "\<not> is_linebreak p" using P by auto
        then have "p \<noteq> CHR 0x0A" by (auto simp: is_linebreak_def)
        moreover have "?X = p # ps @ l @ concat (map ((@) P) ls)" by (simp add: Gl Cons)
        ultimately show ?thesis by auto
      qed
      have "splitlines_from [] ((P @ cur) @ c # ?X) = splitlines_from (P @ cur) (c # ?X)"
        using splitlines_from_plain[OF pc, of "[]"] by simp
      also have "\<dots> = ((P @ cur) @ [c]) # splitlines_from [] ?X"
        by (rule splitlines_from_break[OF lb nolf])
      also have "splitlines_from [] ?X = map ((@) P) ?G"
        using 3(2)[OF False lb] by simp
      finally show ?thesis using False lb by auto
    next
      case nlb: False
      have "\<forall>c \<in> set (cur @ [c]). \<not> is_linebreak c" using 3(4) nlb by auto
      from 3(3)[OF False nlb this] show ?thesis using False nlb by auto
    qed
  qed
qed

lemma splitlines_textwrap_indent:
  "\<forall>c \<in> set P. \<not> is_linebreak c \<Longrightarrow>
   splitlines (textwrap_indent text P) = map ((@) P) (splitlines text)"
  using splitlines_from_indent[of P "[]" "text"]
  by (simp add: splitlines_def textwrap_indent_def)

lemma indent_plain: "\<forall>c \<in> set (indent ctx). \<not> is_linebreak c"
  by (auto simp: indent_def is_linebreak_def)

lemma emit_Str: "emit ctx (Str text) m = [textwrap_indent text (margin_prefix ctx (case m of None \<Rightarrow> ''|'' | Some c \<Rightarrow> c))]"
  by (simp add: emit_def margin_prefix_def Let_def)

lemma emit_Strs: "emit ctx (Strs texts) m = map (\<lambda>text. textwrap_indent text (margin_prefix ctx (case m of None \<Rightarrow> ''|'' | Some c \<Rightarrow> c))) texts"
  by (simp add: emit_def margin_prefix_def Let_def)

subsection \<open>Totality and the depth of the print context\<close>

lemma chain_walk_last: "chain_walk exc \<noteq> [] \<and> fst (last (chain_walk exc)) = None"
  by (induction exc rule: chain_walk.induct) (simp split: option.splits)

lemma restores_Inr:
  "restores ctx r \<Longrightarrow>
   \<exists>out ctx'. r = Inr (out, ctx') \<and> exception_group_depth ctx' = exception_group_depth ctx"
  by (erule restoresE) simp

text \<open>
  C8: for every captured exception (a finite tree: the datatype has no other values), either
  value of the chain flag, every print context and every pair of limits, the formatter
  returns its strings and a final context and raises nothing: neither the assertion nor an
  index error. The chain walk ends at a pair with no message, the node from which no link is
  followed. Termination of the recursion over the children is the termination proof of
  \<open>format_exc\<close>, \<open>format_blocks\<close> and \<open>format_slots\<close> above.
\<close>

theorem format_terminates_without_error:
  "(\<exists>out ctx'. traceback_exception_format self chain ctx_opt = Inr (out, ctx')) \<and>
   (\<exists>out ctx'. format_exc mgw mgd chain ctx self = Inr (out, ctx')) \<and>
   chain_walk self \<noteq> [] \<and> fst (last (chain_walk self)) = None"
proof -
  have "\<exists>out ctx'. format_exc mgw' mgd' chain ctx0 self = Inr (out, ctx')" for mgw' mgd' ctx0
    using restores_Inr[OF format_restores(1)] by blast
  then show ?thesis
    by (simp add: traceback_exception_format_def Let_def chain_walk_last)
qed

lemma format_blocks_single_leaf:
  "exceptions exc = None \<Longrightarrow>
   format_blocks mgw mgd chain ctx [(msg, exc)] = Inr (msg_out ctx msg @ leaf_out ctx exc, ctx)"
  by (simp add: format_blocks_unfold)

lemma format_blocks_single_depth:
  "exceptions exc = Some excs \<Longrightarrow> mgd < exception_group_depth ctx \<Longrightarrow>
   format_blocks mgw mgd chain ctx [(msg, exc)] = Inr (msg_out ctx msg @ depth_out mgd ctx, ctx)"
  by (simp add: format_blocks_unfold)

text \<open>
  C9: depth restoration. For every node, chain flag and print context, the exhausted
  generator leaves \<open>exception_group_depth\<close> at its value on entry, also when the call
  is the top-level one (depth 0, where the extra increment is reset). A leaf and a
  depth-truncated group leave the whole context untouched, and the loop over the slots
  undoes every increment.
\<close>

theorem depth_restored:
  "(\<exists>out ctx'. format_exc mgw mgd chain ctx exc = Inr (out, ctx')
       \<and> exception_group_depth ctx' = exception_group_depth ctx) \<and>
   (\<exists>out ctx'. traceback_exception_format exc chain (Some ctx) = Inr (out, ctx')
       \<and> exception_group_depth ctx' = exception_group_depth ctx) \<and>
   (exceptions lf = None \<longrightarrow>
      (\<exists>out. format_blocks mgw mgd chain ctx [(msg, lf)] = Inr (out, ctx))) \<and>
   (exceptions g = Some excs \<and> mgd < exception_group_depth ctx \<longrightarrow>
      (\<exists>out. format_blocks mgw mgd chain ctx [(msg, g)] = Inr (out, ctx))) \<and>
   (0 \<le> i \<longrightarrow>
      (\<exists>out ctx'. format_slots mgw mgd chain ctx excs (int (length excs)) (slot_count mgw excs) i
           = Inr (out, ctx')
         \<and> exception_group_depth ctx' = exception_group_depth ctx))"
proof (intro conjI impI)
  show "\<exists>out ctx'. format_exc mgw mgd chain ctx exc = Inr (out, ctx')
       \<and> exception_group_depth ctx' = exception_group_depth ctx"
    by (rule restores_Inr[OF format_restores(1)])
  show "\<exists>out ctx'. traceback_exception_format exc chain (Some ctx) = Inr (out, ctx')
       \<and> exception_group_depth ctx' = exception_group_depth ctx"
    unfolding traceback_exception_format_def Let_def option.case
    by (rule restores_Inr[OF format_restores(1)])
  show "\<exists>out. format_blocks mgw mgd chain ctx [(msg, lf)] = Inr (out, ctx)"
    if "exceptions lf = None"
    using that by (simp add: format_blocks_single_leaf)
  show "\<exists>out. format_blocks mgw mgd chain ctx [(msg, g)] = Inr (out, ctx)"
    if "exceptions g = Some excs \<and> mgd < exception_group_depth ctx"
    using that by (simp add: format_blocks_single_depth)
  show "\<exists>out ctx'. format_slots mgw mgd chain ctx excs (int (length excs)) (slot_count mgw excs) i
           = Inr (out, ctx')
         \<and> exception_group_depth ctx' = exception_group_depth ctx"
    if "0 \<le> i"
    by (rule restores_Inr[OF format_restores(3)[OF refl refl that]])
qed

theorem depth_restored_witness:
  "exceptions (TracebackException None None False None [] [''ValueError: 1\<newline>'']) = None \<and>
   exceptions (TracebackException None None False (Some []) [] [''ExceptionGroup: g\<newline>''])
     = Some [] \<and>
   (10::int) < exception_group_depth (new_context\<lparr>exception_group_depth := 11\<rparr>) \<and>
   (0::int) \<le> 0 \<and>
   (\<exists>out ctx'.
      format_exc 15 10 True (new_context\<lparr>exception_group_depth := 11\<rparr>)
        (TracebackException None None False
           (Some [TracebackException None None False None [] [''ValueError: 1\<newline>'']]) []
           [''ExceptionGroup: g\<newline>'']) = Inr (out, ctx')
      \<and> exception_group_depth ctx' = 11) \<and>
   (\<exists>out. format_blocks 15 10 True (new_context\<lparr>exception_group_depth := 11\<rparr>)
      [(None, TracebackException None None False None [] [''ValueError: 1\<newline>''])]
      = Inr (out, new_context\<lparr>exception_group_depth := 11\<rparr>)) \<and>
   (\<exists>out. format_blocks 15 10 True (new_context\<lparr>exception_group_depth := 11\<rparr>)
      [(None, TracebackException None None False (Some []) [] [''ExceptionGroup: g\<newline>''])]
      = Inr (out, new_context\<lparr>exception_group_depth := 11\<rparr>)) \<and>
   (\<exists>out ctx'.
      format_slots 15 10 True (new_context\<lparr>exception_group_depth := 11\<rparr>) []
        (int (length ([] :: TracebackException list))) (slot_count 15 []) 0 = Inr (out, ctx')
      \<and> exception_group_depth ctx' = 11)"
  using depth_restored[of 15 10 True "new_context\<lparr>exception_group_depth := 11\<rparr>"
      "TracebackException None None False
           (Some [TracebackException None None False None [] [''ValueError: 1\<newline>'']]) []
           [''ExceptionGroup: g\<newline>'']"
      "TracebackException None None False None [] [''ValueError: 1\<newline>'']"
      None
      "TracebackException None None False (Some []) [] [''ExceptionGroup: g\<newline>'']"
      "[]" 0]
  by (simp add: new_context_def)

subsection \<open>The indentation protocol\<close>

lemma emit_Str': "emit ctx (Str t) m = [textwrap_indent t (margin_prefix ctx (margin_of m))]"
  by (simp add: emit_Str margin_of_def)

lemma emit_Strs': "emit ctx (Strs ts) m = map (\<lambda>t. textwrap_indent t (margin_prefix ctx (margin_of m))) ts"
  by (simp add: emit_Strs margin_of_def)

lemma margin_prefix_plain:
  "\<forall>c \<in> set mc. \<not> is_linebreak c \<Longrightarrow> \<forall>c \<in> set (margin_prefix ctx mc). \<not> is_linebreak c"
  using indent_plain[of ctx] by (auto simp: margin_prefix_def is_linebreak_def)

text \<open>
  C7: \<open>indent\<close> is a run of spaces, \<open>2 * depth\<close> of them at a depth that is not
  negative. \<open>emit\<close> gives one block for a string and one block per element for a
  sequence. The lines of a text (\<open>splitlines\<close>) make up the text and none is empty, so a
  blank line is a line; the lines of an emitted block are the lines of the text, each behind
  \<open>indent\<close>, the margin character and a space when the depth is positive, and behind
  \<open>indent\<close> alone at depth 0. The margin character is \<open>|\<close> unless one is given; it
  is assumed to hold no line break.
\<close>

theorem emit_prefixes_every_line:
  "set (indent ctx) \<subseteq> {CHR '' ''} \<and>
   (0 \<le> exception_group_depth ctx \<longrightarrow>
      int (length (indent ctx)) = 2 * exception_group_depth ctx) \<and>
   concat (splitlines t) = t \<and> [] \<notin> set (splitlines t) \<and>
   ((\<forall>c \<in> set (margin_of m). \<not> is_linebreak c) \<longrightarrow>
      (0 < exception_group_depth ctx \<longrightarrow>
         map splitlines (emit ctx (Str t) m)
           = [map ((@) (indent ctx @ margin_of m @ '' '')) (splitlines t)] \<and>
         map splitlines (emit ctx (Strs ts) m)
           = map (\<lambda>t. map ((@) (indent ctx @ margin_of m @ '' '')) (splitlines t)) ts) \<and>
      (exception_group_depth ctx = 0 \<longrightarrow>
         map splitlines (emit ctx (Str t) m) = [map ((@) (indent ctx)) (splitlines t)] \<and>
         map splitlines (emit ctx (Strs ts) m)
           = map (\<lambda>t. map ((@) (indent ctx)) (splitlines t)) ts))"
proof (intro conjI impI)
  show "set (indent ctx) \<subseteq> {CHR '' ''}" by (auto simp: indent_def)
  show "int (length (indent ctx)) = 2 * exception_group_depth ctx"
    if "0 \<le> exception_group_depth ctx" using that by (simp add: indent_def)
  show "concat (splitlines t) = t" by (simp add: splitlines_def concat_splitlines_from)
  show "[] \<notin> set (splitlines t)" by (simp add: splitlines_def splitlines_from_no_empty_line)
next
  assume mc: "\<forall>c \<in> set (margin_of m). \<not> is_linebreak c"
  have sp: "splitlines (textwrap_indent u (margin_prefix ctx (margin_of m)))
            = map ((@) (margin_prefix ctx (margin_of m))) (splitlines u)" for u
    by (rule splitlines_textwrap_indent[OF margin_prefix_plain[OF mc]])
  {
    assume "0 < exception_group_depth ctx"
    then have P: "margin_prefix ctx (margin_of m) = indent ctx @ margin_of m @ '' ''"
      by (simp add: margin_prefix_def)
    show "map splitlines (emit ctx (Str t) m)
           = [map ((@) (indent ctx @ margin_of m @ '' '')) (splitlines t)]"
      using sp[of t] by (simp add: emit_Str' P)
    show "map splitlines (emit ctx (Strs ts) m)
           = map (\<lambda>t. map ((@) (indent ctx @ margin_of m @ '' '')) (splitlines t)) ts"
      using sp by (simp add: emit_Strs' P)
  }
  {
    assume "exception_group_depth ctx = 0"
    then have P: "margin_prefix ctx (margin_of m) = indent ctx"
      by (simp add: margin_prefix_def)
    show "map splitlines (emit ctx (Str t) m) = [map ((@) (indent ctx)) (splitlines t)]"
      using sp[of t] by (simp add: emit_Str' P)
    show "map splitlines (emit ctx (Strs ts) m)
           = map (\<lambda>t. map ((@) (indent ctx)) (splitlines t)) ts"
      using sp by (simp add: emit_Strs' P)
  }
qed

theorem emit_prefixes_every_line_witness:
  "(0::int) \<le> exception_group_depth (new_context\<lparr>exception_group_depth := 2\<rparr>) \<and>
   margin_of None = ''|'' \<and>
   (0::int) < exception_group_depth (new_context\<lparr>exception_group_depth := 2\<rparr>) \<and>
   exception_group_depth new_context = 0 \<and>
   int (length (indent (new_context\<lparr>exception_group_depth := 2\<rparr>))) = 4 \<and>
   map splitlines (emit (new_context\<lparr>exception_group_depth := 2\<rparr>)
       (Str ''ValueError: a\<newline>\<newline>b\<newline>'') None)
     = [[''    | ValueError: a\<newline>'', ''    | \<newline>'', ''    | b\<newline>'']] \<and>
   map splitlines (emit new_context (Strs [''x\<newline>\<newline>'', ''y'']) None)
     = [[''x\<newline>'', ''\<newline>''], [''y'']]"
  using emit_prefixes_every_line[of "new_context\<lparr>exception_group_depth := 2\<rparr>"
      "''ValueError: a\<newline>\<newline>b\<newline>''" None "[]"]
    emit_prefixes_every_line[of new_context "[]" None "[''x\<newline>\<newline>'', ''y'']"]
  by (simp add: new_context_def margin_of_def is_linebreak_def indent_def splitlines_def eval_nat_numeral)

subsection \<open>Sequencing the blocks; the empty group\<close>

lemma yield_then_Nil [simp]: "yield_then [] r = r"
  by (simp add: yield_then_def split: sum.splits)

lemma yield_then_assoc [simp]: "yield_then a (yield_then b r) = yield_then (a @ b) r"
  by (simp add: yield_then_def split: sum.splits)

lemma yield_from_simps [simp]:
  "yield_from (Inr (out, ctx)) k = yield_then out (k ctx)"
  "yield_from (Inl e) k = Inl e"
  by (simp_all add: yield_from_def)

lemma yield_from_yield_then [simp]:
  "yield_from (yield_then a r) k = yield_then a (yield_from r k)"
  by (cases r) (auto simp: yield_from_def)

lemma msg_out_None [simp]: "msg_out ctx None = []"
  by (simp add: msg_out_def)

lemma format_blocks_append:
  "format_blocks mgw mgd chain ctx (ps @ qs) =
     yield_from (format_blocks mgw mgd chain ctx ps) (\<lambda>c. format_blocks mgw mgd chain c qs)"
proof (induction ps arbitrary: ctx)
  case Nil
  then show ?case by simp
next
  case (Cons p ps)
  obtain msg exc where p: "p = (msg, exc)" by (cases p)
  show ?case
    unfolding p append_Cons format_blocks_unfold[of _ _ _ _ msg exc]
    by (simp add: Cons.IH split: option.splits sum.splits)
qed

lemma format_blocks_single:
  "format_blocks mgw mgd chain ctx ((msg, exc) # rest) =
     yield_from (format_blocks mgw mgd chain ctx [(msg, exc)])
       (\<lambda>c. format_blocks mgw mgd chain c rest)"
  using format_blocks_append[of mgw mgd chain ctx "[(msg, exc)]" rest] by simp

lemma group_leave_empty:
  "exception_group_depth ctx = 0 \<Longrightarrow>
   (group_enter ctx)\<lparr>need_close := False, exception_group_depth := 0\<rparr> = ctx\<lparr>need_close := False\<rparr>"
  by (simp add: group_enter_def)

text \<open>
  C10: a group whose \<open>exceptions\<close> is the empty list, within the depth limit and rendered
  without chain ancestors, yields its head (the group traceback header and the stack when
  there is a stack, then the exception-only text) and nothing else: no slot header, no
  truncation slot and no closing line. It leaves \<open>need_close\<close> cleared.
\<close>

theorem empty_group_rendering:
  assumes "exceptions exc = Some []"
    and "exception_group_depth ctx \<le> max_group_depth"
    and "chain_output chain exc = [(None, exc)]"
  shows "format_exc max_group_width max_group_depth chain ctx exc
           = Inr (group_head ctx exc, ctx\<lparr>need_close := False\<rparr>)
         \<and> group_head ctx exc =
             (if stack exc \<noteq> []
              then emit (group_enter ctx)
                     (Str ''Exception Group Traceback (most recent call last):\<newline>'')
                     (if exception_group_depth ctx = 0 then Some ''+'' else None)
                   @ emit (group_enter ctx) (Strs (stack exc)) None
              else [])
             @ emit (group_enter ctx) (Strs (exception_only exc)) None"
proof -
  have n: "slot_count max_group_width [] = 0"
    by (simp add: slot_count_def max_group_width_def)
  have "format_exc max_group_width max_group_depth chain ctx exc
           = Inr (group_head ctx exc, ctx\<lparr>need_close := False\<rparr>)"
    using assms
    by (simp add: format_exc.simps format_blocks_unfold n format_slots_unfold group_enter_depth
        group_leave_empty)
  then show ?thesis by (simp add: group_head_def)
qed

theorem empty_group_rendering_witness:
  "exceptions (TracebackException None None False (Some []) [''  File f\<newline>'']
      [''ExceptionGroup: g (0 sub-exceptions)\<newline>'']) = Some [] \<and>
   exception_group_depth new_context \<le> max_group_depth \<and>
   chain_output True (TracebackException None None False (Some []) [''  File f\<newline>'']
      [''ExceptionGroup: g (0 sub-exceptions)\<newline>''])
     = [(None, TracebackException None None False (Some []) [''  File f\<newline>'']
      [''ExceptionGroup: g (0 sub-exceptions)\<newline>''])] \<and>
   format_exc max_group_width max_group_depth True new_context
     (TracebackException None None False (Some []) [''  File f\<newline>'']
        [''ExceptionGroup: g (0 sub-exceptions)\<newline>''])
     = Inr ([''  + Exception Group Traceback (most recent call last):\<newline>'',
             ''  |   File f\<newline>'',
             ''  | ExceptionGroup: g (0 sub-exceptions)\<newline>''],
            new_context)"
  using empty_group_rendering[of "TracebackException None None False (Some []) [''  File f\<newline>'']
      [''ExceptionGroup: g (0 sub-exceptions)\<newline>'']" new_context True]
  by (simp add: new_context_def max_group_depth_def chain_output_def group_enter_def emit_def
      indent_def textwrap_indent_def splitlines_def is_linebreak_def eval_nat_numeral)

subsection \<open>Depth truncation\<close>

declare digits10.simps [simp del]

lemma str_int_digit: "0 \<le> i \<Longrightarrow> i < 10 \<Longrightarrow> str_int i = [''0123456789'' ! nat i]"
  by (simp add: str_int_def digits10.simps)

lemma str_int_1 [simp]: "str_int 1 = ''1''"
  by (simp add: str_int_def digits10.simps[of "Suc 0"])

lemma str_int_10 [simp]: "str_int 10 = ''10''"
  by (simp add: str_int_def digits10.simps[of 10] digits10.simps[of "Suc 0"])

lemma textwrap_indent_line:
  assumes "\<forall>c \<in> set body. \<not> is_linebreak c"
  shows "textwrap_indent (body @ ''\<newline>'') P = P @ body @ ''\<newline>''"
proof -
  have "splitlines_from [] (body @ ''\<newline>'') = splitlines_from ([] @ body) ''\<newline>''"
    by (rule splitlines_from_plain[OF assms])
  then show ?thesis by (simp add: textwrap_indent_def splitlines_def)
qed

lemma depth_out_10:
  "exception_group_depth ctx \<noteq> 0 \<Longrightarrow>
   depth_out 10 ctx = [indent ctx @ ''| ... (max_group_depth is 10)\<newline>'']"
  using textwrap_indent_line[of "''... (max_group_depth is 10)''" "indent ctx @ ''| ''"]
  by (simp add: depth_out_def emit_Str margin_prefix_def is_linebreak_def)

lemma indent_nat: "exception_group_depth ctx = int d \<Longrightarrow> indent ctx = replicate (2 * d) CHR '' ''"
  by (simp add: indent_def nat_mult_distrib)

lemma nested_group_chain:
  "chain_output chain (nested_group (eo # eos) inner) = [(None, nested_group (eo # eos) inner)]"
  by (simp add: chain_output_def)

lemma nested_render:
  assumes "exceptions inner = Some excs" and "chain_output chain inner = [(None, inner)]"
    and "1 \<le> mgw"
  shows "exception_group_depth ctx = int d \<Longrightarrow> 1 \<le> d \<Longrightarrow> d + length eos = 11 \<Longrightarrow>
    format_exc mgw 10 chain ctx (nested_group eos inner)
      = Inr (nested_out d eos, if eos = [] then ctx else ctx\<lparr>need_close := False\<rparr>)"
proof (induction eos arbitrary: d ctx)
  case Nil
  then show ?case
    using assms by (simp add: format_exc.simps format_blocks_unfold depth_out_10 indent_nat)
next
  case (Cons eo eos)
  let ?child = "nested_group eos inner"
  let ?ctx2 = "slot_enter 1 0 (ctx\<lparr>need_close := False\<rparr>)"
  have d2: "exception_group_depth ?ctx2 = int (Suc d)" using Cons.prems by simp
  have IH: "format_exc mgw 10 chain ?ctx2 ?child
      = Inr (nested_out (Suc d) eos, if eos = [] then ?ctx2 else ?ctx2\<lparr>need_close := False\<rparr>)"
    by (rule Cons.IH[OF d2]) (use Cons.prems in simp_all)
  have nc: "need_close ?ctx2" by (simp add: slot_enter_def)
  have body: "slot_body mgw 10 chain ?ctx2 [?child] 1 0
      = Inr (nested_out (Suc d) eos, if eos = [] then ?ctx2 else ?ctx2\<lparr>need_close := False\<rparr>)"
    using assms(3) IH by (simp add: slot_body_def getitem_def)
  have hdr: "slot_header mgw 0 (ctx\<lparr>need_close := False\<rparr>)
      = replicate (2 * d) CHR '' '' @ ''+-+---------------- 1 ----------------\<newline>''"
    using assms(3) Cons.prems(1) by (simp add: slot_header_def indent_nat[of _ d])
  have leave: "slot_leave 1 0 (if eos = [] then ?ctx2 else ?ctx2\<lparr>need_close := False\<rparr>)
      = ctx\<lparr>need_close := False\<rparr>"
    by (simp add: slot_leave_def slot_enter_def)
  have closing: "slot_closing 1 0 (if eos = [] then ?ctx2 else ?ctx2\<lparr>need_close := False\<rparr>)
      = (if eos = []
         then [replicate (2 * Suc d) CHR '' '' @ ''+------------------------------------\<newline>'']
         else [])"
    using nc d2 by (simp add: slot_closing_def indent_nat[of _ "Suc d"])
  have slots: "format_slots mgw 10 chain (ctx\<lparr>need_close := False\<rparr>) [?child] 1 1 0
      = Inr (slot_header mgw 0 (ctx\<lparr>need_close := False\<rparr>) # nested_out (Suc d) eos
               @ slot_closing 1 0 (if eos = [] then ?ctx2 else ?ctx2\<lparr>need_close := False\<rparr>),
             ctx\<lparr>need_close := False\<rparr>)"
    apply (subst format_slots_unfold)
    apply (simp only: body)
    apply (simp add: leave format_slots_unfold[of _ _ _ _ _ _ 1 1])
    done
  have ge: "group_enter ctx = ctx" using Cons.prems by (simp add: group_enter_def)
  define G where "G = nested_group (eo # eos) inner"
  have G: "exceptions G = Some [?child]" "stack G = []" "exception_only G = eo"
    by (simp_all add: G_def)
  have head: "group_head ctx G
      = map (\<lambda>t. textwrap_indent t (replicate (2 * d) CHR '' '' @ ''| '')) eo"
    using Cons.prems
    by (simp add: group_head_def G ge emit_Strs margin_prefix_def indent_nat[of _ d])
  have sc: "slot_count mgw [?child] = 1" using assms(3) by (simp add: slot_count_def)
  have len: "int (length [?child]) = 1" by simp
  have nd: "\<not> 10 < exception_group_depth ctx" "exception_group_depth ctx \<noteq> 0"
    using Cons.prems by simp_all
  have "format_blocks mgw 10 chain ctx [(None, G)]
      = Inr (group_head ctx G
             @ slot_header mgw 0 (ctx\<lparr>need_close := False\<rparr>) # nested_out (Suc d) eos
             @ slot_closing 1 0 (if eos = [] then ?ctx2 else ?ctx2\<lparr>need_close := False\<rparr>),
             ctx\<lparr>need_close := False\<rparr>)"
    apply (subst format_blocks_unfold)
    apply (simp only: G option.case nd if_False ge sc len slots sum.case prod.case)
    apply simp
    done
  moreover have "chain_output chain G = [(None, G)]"
    unfolding G_def by (rule nested_group_chain)
  ultimately have "format_exc mgw 10 chain ctx G
      = Inr (nested_out d (eo # eos), ctx\<lparr>need_close := False\<rparr>)"
    by (simp add: format_exc.simps head hdr closing)
  then show ?case by (simp add: G_def)
qed

lemma toplevel_as_depth_1:
  assumes "exceptions G = Some excs" and "stack G = []"
    and "exception_group_depth ctx = 0" and "1 \<le> mgd"
  shows "format_blocks mgw mgd chain ctx [(None, G)] =
     (case format_blocks mgw mgd chain (ctx\<lparr>exception_group_depth := 1\<rparr>) [(None, G)] of
        Inl e \<Rightarrow> Inl e
      | Inr (out, ctx') \<Rightarrow> Inr (out, ctx'\<lparr>exception_group_depth := 0\<rparr>))"
proof -
  let ?c1 = "ctx\<lparr>exception_group_depth := 1\<rparr>"
  let ?slots = "format_slots mgw mgd chain (?c1\<lparr>need_close := False\<rparr>) excs
                  (int (length excs)) (slot_count mgw excs) 0"
  have ge: "group_enter ctx = ?c1" "group_enter ?c1 = ?c1"
    using assms(3) by (simp_all add: group_enter_def)
  obtain out3 ctx3 where r: "?slots = Inr (out3, ctx3)"
    and d: "exception_group_depth ctx3 = exception_group_depth (?c1\<lparr>need_close := False\<rparr>)"
    using format_restores(3)[OF refl refl, of 0 "?c1\<lparr>need_close := False\<rparr>" mgw mgd chain excs]
    by (auto elim: restoresE)
  have head: "group_head ctx G = group_head ?c1 G"
    using assms(2) by (simp add: group_head_def ge)
  show ?thesis
    using assms d by (simp add: format_blocks_unfold ge r head)
qed

text \<open>
  C4: a group met while the depth exceeds \<open>max_group_depth\<close> (10) yields the one line
  \<open>... (max_group_depth is 10)\<close> behind the margin, whatever its children, and leaves the
  context as it was. For eleven groups nested one in the other (\<open>nested_group\<close> with ten
  outer levels, each with one child, no stack and no chain link, around an innermost group
  with any children) the ten outer levels are rendered in full, each with its text and the
  header of slot 1, and the innermost group is that line alone, followed by the one closing
  line (\<open>nested_out\<close>).
\<close>

theorem depth_truncation:
  "(exceptions exc = Some excs \<and> max_group_depth < exception_group_depth ctx \<longrightarrow>
      format_blocks mgw max_group_depth chain ctx [(None, exc)]
        = Inr ([indent ctx @ ''| ... (max_group_depth is 10)\<newline>''], ctx)) \<and>
   (length eos = 10 \<and> exceptions inner = Some excs' \<and> chain_output chain inner = [(None, inner)]
      \<longrightarrow>
      format_exc max_group_width max_group_depth chain new_context (nested_group eos inner)
        = Inr (nested_out 1 eos, new_context))"
proof (intro conjI impI)
  assume "exceptions exc = Some excs \<and> max_group_depth < exception_group_depth ctx"
  then show "format_blocks mgw max_group_depth chain ctx [(None, exc)]
        = Inr ([indent ctx @ ''| ... (max_group_depth is 10)\<newline>''], ctx)"
    by (simp add: format_blocks_single_depth max_group_depth_def depth_out_10)
next
  assume a: "length eos = 10 \<and> exceptions inner = Some excs'
    \<and> chain_output chain inner = [(None, inner)]"
  then obtain eo eos' where eos: "eos = eo # eos'" by (cases eos) auto
  let ?G = "nested_group eos inner"
  let ?c1 = "new_context\<lparr>exception_group_depth := 1\<rparr>"
  have G: "exceptions ?G = Some [nested_group eos' inner]" "stack ?G = []"
    by (simp_all add: eos)
  have ch: "chain_output chain ?G = [(None, ?G)]"
    unfolding eos by (rule nested_group_chain)
  have "format_exc 15 10 chain ?c1 ?G
      = Inr (nested_out 1 eos, if eos = [] then ?c1 else ?c1\<lparr>need_close := False\<rparr>)"
    using a by (intro nested_render[of inner excs']) (simp_all add: new_context_def)
  then have "format_blocks 15 10 chain ?c1 [(None, ?G)]
      = Inr (nested_out 1 eos, ?c1\<lparr>need_close := False\<rparr>)"
    using ch by (simp add: format_exc.simps eos)
  then have "format_blocks 15 10 chain new_context [(None, ?G)] = Inr (nested_out 1 eos, new_context)"
    using toplevel_as_depth_1[OF G, of new_context 10 15 chain]
    by (simp add: new_context_def)
  then show "format_exc max_group_width max_group_depth chain new_context ?G
        = Inr (nested_out 1 eos, new_context)"
    using ch by (simp add: format_exc.simps max_group_width_def max_group_depth_def)
qed

theorem depth_truncation_witness:
  "exceptions 
      (TracebackException None None False
         (Some [TracebackException None None False None [] [''ValueError: 1\<newline>''],
                TracebackException None None False None [] [''ValueError: 2\<newline>'']])
         [] [''ExceptionGroup: h (2 sub-exceptions)\<newline>'']) = Some [TracebackException None None False None [] [''ValueError: 1\<newline>''],
                TracebackException None None False None [] [''ValueError: 2\<newline>'']] \<and>
   max_group_depth < exception_group_depth (new_context\<lparr>exception_group_depth := 11\<rparr>) \<and>
   length (replicate 10 [''ExceptionGroup: g (1 sub-exception)\<newline>'']) = 10 \<and>
   chain_output True 
      (TracebackException None None False
         (Some [TracebackException None None False None [] [''ValueError: 1\<newline>''],
                TracebackException None None False None [] [''ValueError: 2\<newline>'']])
         [] [''ExceptionGroup: h (2 sub-exceptions)\<newline>'']) = [(None, 
      (TracebackException None None False
         (Some [TracebackException None None False None [] [''ValueError: 1\<newline>''],
                TracebackException None None False None [] [''ValueError: 2\<newline>'']])
         [] [''ExceptionGroup: h (2 sub-exceptions)\<newline>'']))] \<and>
   format_blocks 15 max_group_depth True (new_context\<lparr>exception_group_depth := 11\<rparr>) [(None, 
      (TracebackException None None False
         (Some [TracebackException None None False None [] [''ValueError: 1\<newline>''],
                TracebackException None None False None [] [''ValueError: 2\<newline>'']])
         [] [''ExceptionGroup: h (2 sub-exceptions)\<newline>'']))]
     = Inr ([''                      | ... (max_group_depth is 10)\<newline>''], (new_context\<lparr>exception_group_depth := 11\<rparr>)) \<and>
   format_exc max_group_width max_group_depth True new_context (nested_group (replicate 10 [''ExceptionGroup: g (1 sub-exception)\<newline>'']) 
      (TracebackException None None False
         (Some [TracebackException None None False None [] [''ValueError: 1\<newline>''],
                TracebackException None None False None [] [''ValueError: 2\<newline>'']])
         [] [''ExceptionGroup: h (2 sub-exceptions)\<newline>'']))
     = Inr ([''  | ExceptionGroup: g (1 sub-exception)\<newline>'',
           ''  +-+---------------- 1 ----------------\<newline>'',
           ''    | ExceptionGroup: g (1 sub-exception)\<newline>'',
           ''    +-+---------------- 1 ----------------\<newline>'',
           ''      | ExceptionGroup: g (1 sub-exception)\<newline>'',
           ''      +-+---------------- 1 ----------------\<newline>'',
           ''        | ExceptionGroup: g (1 sub-exception)\<newline>'',
           ''        +-+---------------- 1 ----------------\<newline>'',
           ''          | ExceptionGroup: g (1 sub-exception)\<newline>'',
           ''          +-+---------------- 1 ----------------\<newline>'',
           ''            | ExceptionGroup: g (1 sub-exception)\<newline>'',
           ''            +-+---------------- 1 ----------------\<newline>'',
           ''              | ExceptionGroup: g (1 sub-exception)\<newline>'',
           ''              +-+---------------- 1 ----------------\<newline>'',
           ''                | ExceptionGroup: g (1 sub-exception)\<newline>'',
           ''                +-+---------------- 1 ----------------\<newline>'',
           ''                  | ExceptionGroup: g (1 sub-exception)\<newline>'',
           ''                  +-+---------------- 1 ----------------\<newline>'',
           ''                    | ExceptionGroup: g (1 sub-exception)\<newline>'',
           ''                    +-+---------------- 1 ----------------\<newline>'',
           ''                      | ... (max_group_depth is 10)\<newline>'',
           ''                      +------------------------------------\<newline>''],
            new_context)"
  using depth_truncation[of
      "(TracebackException None None False
         (Some [TracebackException None None False None [] [''ValueError: 1\<newline>''],
                TracebackException None None False None [] [''ValueError: 2\<newline>'']])
         [] [''ExceptionGroup: h (2 sub-exceptions)\<newline>''])"
      "[TracebackException None None False None [] [''ValueError: 1\<newline>''],
                TracebackException None None False None [] [''ValueError: 2\<newline>'']]"
      "new_context\<lparr>exception_group_depth := 11\<rparr>" 15 True
      "replicate 10 [''ExceptionGroup: g (1 sub-exception)\<newline>'']"
      "(TracebackException None None False
         (Some [TracebackException None None False None [] [''ValueError: 1\<newline>''],
                TracebackException None None False None [] [''ValueError: 2\<newline>'']])
         [] [''ExceptionGroup: h (2 sub-exceptions)\<newline>''])"
      "[TracebackException None None False None [] [''ValueError: 1\<newline>''],
                TracebackException None None False None [] [''ValueError: 2\<newline>'']]"]
  by (simp add: max_group_depth_def new_context_def chain_output_def indent_def
      textwrap_indent_def splitlines_def is_linebreak_def eval_nat_numeral)

subsection \<open>The chain of causes and contexts\<close>

lemma chain_walk_unfold:
  "chain_walk exc =
     (case followed_link exc of
        None \<Rightarrow> [(None, exc)]
      | Some (m, e) \<Rightarrow> (Some m, exc) # chain_walk e)"
  by (cases exc) (simp add: followed_link_def split: option.splits)

lemma chain_walk_first: "chain_walk exc \<noteq> [] \<and> snd (hd (chain_walk exc)) = exc"
  by (cases exc) (simp split: option.splits)

lemma chain_walk_butlast: "\<forall>p \<in> set (butlast (chain_walk exc)). fst p \<noteq> None"
  by (induction exc rule: chain_walk.induct)
     (auto simp: chain_walk_last split: option.splits if_splits)

lemma set_tl_rev: "set (tl (rev xs)) = set (butlast xs)"
  using butlast_rev[of "rev xs"] by (metis rev_rev_ident set_rev)

lemma format_blocks_separator:
  "format_blocks mgw mgd chain ctx [(Some m, exc)] =
     yield_then (emit ctx (Str m) None) (format_blocks mgw mgd chain ctx [(None, exc)])"
  by (simp add: format_blocks_unfold msg_out_def split: option.splits sum.splits)

text \<open>
  C2: with \<open>chain\<close> set the walk follows \<open>__cause__\<close> when there is one, otherwise
  \<open>__context__\<close> when there is one and \<open>__suppress_context__\<close> is false, and otherwise
  stops (\<open>followed_link\<close>). The blocks come out in the reverse of the order of discovery:
  the chain of the node that the link leads to is rendered first, then the message of the
  link, then the block of the node itself. The first pair rendered has no message, every
  later one has one, and the last one is the node the call was made on. A node with no cause
  and with \<open>__suppress_context__\<close> set renders its own block only, whatever its context.
\<close>

theorem chain_walk_rule:
  "chain_walk exc =
     (case followed_link exc of
        None \<Rightarrow> [(None, exc)]
      | Some (m, e) \<Rightarrow> (Some m, exc) # chain_walk e) \<and>
   format_exc mgw mgd True ctx exc =
     (case followed_link exc of
        None \<Rightarrow> format_blocks mgw mgd True ctx [(None, exc)]
      | Some (m, e) \<Rightarrow>
          yield_from (format_exc mgw mgd True ctx e)
            (\<lambda>c. yield_then (emit c (Str m) None)
                   (format_blocks mgw mgd True c [(None, exc)]))) \<and>
   fst (hd (rev (chain_walk exc))) = None \<and>
   snd (last (rev (chain_walk exc))) = exc \<and>
   (\<forall>p \<in> set (tl (rev (chain_walk exc))). fst p \<noteq> None) \<and>
   (exc_cause b = None \<and> suppress_context b \<longrightarrow>
      chain_walk b = [(None, b)] \<and>
      format_exc mgw mgd True ctx b = format_blocks mgw mgd True ctx [(None, b)])"
proof (intro conjI ballI impI)
  show "chain_walk exc =
     (case followed_link exc of
        None \<Rightarrow> [(None, exc)]
      | Some (m, e) \<Rightarrow> (Some m, exc) # chain_walk e)"
    by (rule chain_walk_unfold)
  show "format_exc mgw mgd True ctx exc =
     (case followed_link exc of
        None \<Rightarrow> format_blocks mgw mgd True ctx [(None, exc)]
      | Some (m, e) \<Rightarrow>
          yield_from (format_exc mgw mgd True ctx e)
            (\<lambda>c. yield_then (emit c (Str m) None)
                   (format_blocks mgw mgd True c [(None, exc)])))"
    by (simp add: format_exc.simps chain_output_def chain_walk_unfold[of exc]
          format_blocks_append format_blocks_separator split: option.splits)
  show "fst (hd (rev (chain_walk exc))) = None"
    using chain_walk_last[of exc] by (simp add: hd_rev)
  show "snd (last (rev (chain_walk exc))) = exc"
    using chain_walk_first[of exc] by (simp add: last_rev)
  show "fst p \<noteq> None" if "p \<in> set (tl (rev (chain_walk exc)))" for p
    using that chain_walk_butlast[of exc] by (simp add: set_tl_rev)
next
  assume b: "exc_cause b = None \<and> suppress_context b"
  then have "followed_link b = None"
    by (simp add: followed_link_def split: option.splits)
  then show "chain_walk b = [(None, b)]"
    by (simp add: chain_walk_unfold[of b])
  then show "format_exc mgw mgd True ctx b = format_blocks mgw mgd True ctx [(None, b)]"
    by (simp add: format_exc.simps chain_output_def)
qed

theorem chain_walk_rule_witness:
  "exc_cause (TracebackException None (Some (TracebackException None None False None [] [''ValueError: a\<newline>''])) True None []
        [''KeyError: c\<newline>'']) = None \<and>
   suppress_context (TracebackException None (Some (TracebackException None None False None [] [''ValueError: a\<newline>''])) True None []
        [''KeyError: c\<newline>'']) \<and>
   chain_walk (TracebackException (Some (TracebackException None None False None [] [''ValueError: a\<newline>''])) None False None []
        [''KeyError: b\<newline>''])
     = [(Some cause_message, TracebackException (Some (TracebackException None None False None [] [''ValueError: a\<newline>''])) None False None []
        [''KeyError: b\<newline>'']),
        (None, TracebackException None None False None [] [''ValueError: a\<newline>''])] \<and>
   format_exc 15 10 True new_context (TracebackException (Some (TracebackException None None False None [] [''ValueError: a\<newline>''])) None False None []
        [''KeyError: b\<newline>''])
     = Inr ([''ValueError: a\<newline>'',
             ''\<newline>The above exception was the direct cause of the following exception:\<newline>\<newline>'',
             ''KeyError: b\<newline>''], new_context) \<and>
   format_exc 15 10 True new_context (TracebackException None (Some (TracebackException None None False None [] [''ValueError: a\<newline>''])) True None []
        [''KeyError: c\<newline>''])
     = Inr ([''KeyError: c\<newline>''], new_context)"
  using chain_walk_rule[of "TracebackException (Some (TracebackException None None False None [] [''ValueError: a\<newline>''])) None False None []
        [''KeyError: b\<newline>'']" 15 10 new_context
      "TracebackException None (Some (TracebackException None None False None [] [''ValueError: a\<newline>''])) True None []
        [''KeyError: c\<newline>'']"]
  by (simp add: followed_link_def format_exc.simps chain_output_def format_blocks_unfold
      msg_out_def leaf_out_def emit_def new_context_def indent_def cause_message_def
      textwrap_indent_def splitlines_def is_linebreak_def)

subsection \<open>Zero and negative limits\<close>

lemma digit_plain: "m < 10 \<Longrightarrow> \<not> is_linebreak (''0123456789'' ! m)"
proof -
  assume "m < 10"
  then have "m \<in> {0, 1, 2, 3, 4, 5, 6, 7, 8, 9}" by auto
  then show ?thesis by (auto simp: is_linebreak_def)
qed

lemma digits10_plain: "\<forall>c \<in> set (digits10 n). \<not> is_linebreak c"
proof (induction n rule: digits10.induct)
  case (1 n)
  show ?case
  proof (cases "n < 10")
    case True
    then show ?thesis by (subst digits10.simps) (simp add: digit_plain)
  next
    case False
    then show ?thesis
      using 1[OF False] by (subst digits10.simps) (simp add: digit_plain)
  qed
qed

lemma str_int_plain: "\<forall>c \<in> set (str_int k). \<not> is_linebreak c"
  using digits10_plain by (auto simp: str_int_def is_linebreak_def)

lemma more_out_line:
  assumes "exception_group_depth c \<noteq> 0"
  shows "more_out k c =
     [indent c @ ''| and '' @ str_int k @ '' more exception''
        @ (if 1 < k then ''s'' else []) @ ''\<newline>'']"
proof -
  let ?body = "''and '' @ str_int k @ '' more exception'' @ (if 1 < k then ''s'' else [])"
  have "\<forall>c \<in> set ?body. \<not> is_linebreak c"
    using str_int_plain[of k] by (auto simp: is_linebreak_def)
  from textwrap_indent_line[OF this, of "indent c @ ''| ''"] show ?thesis
    using assms by (simp add: more_out_def emit_Str margin_prefix_def)
qed

lemma str_int_0 [simp]: "str_int 0 = ''0''"
  by (simp add: str_int_def digits10.simps[of 0])

lemma depth_out_0:
  "exception_group_depth ctx \<noteq> 0 \<Longrightarrow>
   depth_out 0 ctx = [indent ctx @ ''| ... (max_group_depth is 0)\<newline>'']"
  using textwrap_indent_line[of "''... (max_group_depth is 0)''" "indent ctx @ ''| ''"]
  by (simp add: depth_out_def emit_Str margin_prefix_def is_linebreak_def)

lemma group_leave_toplevel:
  "exception_group_depth ctx = 0 \<Longrightarrow>
   (slot_leave n i (slot_enter n' i' ((group_enter ctx)\<lparr>need_close := False\<rparr>)))
      \<lparr>exception_group_depth := 0\<rparr> \<lparr>need_close := False\<rparr> = ctx\<lparr>need_close := False\<rparr>"
  by (simp add: slot_leave_def slot_enter_def group_enter_def Let_def)

lemma indent_deeper:
  "0 \<le> exception_group_depth c \<Longrightarrow> exception_group_depth c' = exception_group_depth c + 1
   \<Longrightarrow> indent c' = ''  '' @ indent c"
  by (simp add: indent_def nat_add_distrib nat_mult_distrib replicate_add[symmetric]
      del: replicate_add)

lemma zero_width_group:
  assumes "exceptions exc = Some excs" and "excs \<noteq> []"
    and "0 \<le> exception_group_depth ctx" and "exception_group_depth ctx \<le> mgd"
  shows "format_blocks 0 mgd chain ctx [(None, exc)]
     = Inr (group_head ctx exc
            @ [indent (group_enter ctx) @ ''+-+---------------- ... ----------------\<newline>'',
               ''  '' @ indent (group_enter ctx) @ ''| and '' @ str_int (int (length excs))
                 @ '' more exception'' @ (if 1 < length excs then ''s'' else []) @ ''\<newline>'',
               ''  '' @ indent (group_enter ctx) @ ''+------------------------------------\<newline>''],
            ctx\<lparr>need_close := False\<rparr>)"
proof -
  let ?c1 = "(group_enter ctx)\<lparr>need_close := False\<rparr>"
  let ?c2 = "slot_enter 1 0 ?c1"
  have d1: "0 < exception_group_depth (group_enter ctx)"
    using assms(3) by (simp add: group_enter_def)
  have d2: "exception_group_depth ?c2 = exception_group_depth (group_enter ctx) + 1" by simp
  have ind: "indent ?c2 = ''  '' @ indent (group_enter ctx)"
    using d1 by (intro indent_deeper) simp_all
  have sc: "slot_count 0 excs = 1" using assms(2) by (simp add: slot_count_def)
  have body: "slot_body 0 mgd chain ?c2 excs (int (length excs)) 0
      = Inr (more_out (int (length excs)) ?c2, ?c2)"
    by (simp add: slot_body_def)
  have nc: "need_close ?c2" by (simp add: slot_enter_def)
  have slots: "format_slots 0 mgd chain ?c1 excs (int (length excs)) 1 0
      = Inr (slot_header 0 0 ?c1 # more_out (int (length excs)) ?c2 @ slot_closing 1 0 ?c2,
             slot_leave 1 0 ?c2)"
    apply (subst format_slots_unfold)
    apply (simp only: body)
    apply (simp add: format_slots_unfold[of _ _ _ _ _ _ 1 1])
    done
  have hdr: "slot_header 0 0 ?c1
      = indent (group_enter ctx) @ ''+-+---------------- ... ----------------\<newline>''"
    by (simp add: slot_header_def indent_cong[of ?c1 "group_enter ctx"])
  have more: "more_out (int (length excs)) ?c2
      = [''  '' @ indent (group_enter ctx) @ ''| and '' @ str_int (int (length excs))
           @ '' more exception'' @ (if 1 < length excs then ''s'' else []) @ ''\<newline>'']"
    using d1 by (simp add: more_out_line ind)
  have closing: "slot_closing 1 0 ?c2
      = [''  '' @ indent (group_enter ctx) @ ''+------------------------------------\<newline>'']"
    using nc by (simp add: slot_closing_def ind)
  have leave: "slot_leave 1 0 ?c2 = ?c1"
    by (simp add: slot_leave_def slot_enter_def)
  have fin: "exception_group_depth ctx = 0 \<Longrightarrow>
      ?c1\<lparr>exception_group_depth := 0\<rparr> = ctx\<lparr>need_close := False\<rparr>"
    "exception_group_depth ctx \<noteq> 0 \<Longrightarrow> ?c1 = ctx\<lparr>need_close := False\<rparr>"
    by (simp_all add: group_enter_def)
  have nd: "\<not> mgd < exception_group_depth ctx" using assms(4) by simp
  show ?thesis
    apply (subst format_blocks_unfold)
    apply (simp only: assms(1) option.case nd if_False sc slots sum.case prod.case leave
        hdr more closing)
    apply (cases "exception_group_depth ctx = 0")
     apply (simp_all add: fin group_enter_depth)
    done
qed

lemma digits10_small: "n < 10 \<Longrightarrow> digits10 n = [''0123456789'' ! n]"
  by (simp add: digits10.simps)

lemma zero_width_empty_group:
  assumes "exceptions exc = Some []" and "exception_group_depth ctx \<le> mgd"
  shows "format_blocks 0 mgd chain ctx [(None, exc)]
     = Inr (group_head ctx exc, ctx\<lparr>need_close := False\<rparr>)"
  using assms
  by (simp add: format_blocks_unfold slot_count_def format_slots_unfold group_enter_depth
      group_leave_empty)

text \<open>
  C6, as stated, fails: with \<open>max_group_depth\<close> set to zero a group rendered from a fresh
  context is met at depth 0, which does not exceed the limit, so it is rendered with its
  slot and not as the depth-truncation line.
\<close>

theorem zero_depth_counterexample:
  "format_exc max_group_width 0 True new_context
     (TracebackException None None False
        (Some [TracebackException None None False None [] [''ValueError: 1\<newline>'']])
        [] [''ExceptionGroup: g (1 sub-exception)\<newline>''])
     = Inr ([''  | ExceptionGroup: g (1 sub-exception)\<newline>'',
             ''  +-+---------------- 1 ----------------\<newline>'',
             ''    | ValueError: 1\<newline>'',
             ''    +------------------------------------\<newline>''], new_context)
   \<and> format_exc max_group_width 0 True new_context
     (TracebackException None None False
        (Some [TracebackException None None False None [] [''ValueError: 1\<newline>'']])
        [] [''ExceptionGroup: g (1 sub-exception)\<newline>''])
     \<noteq> Inr ([''... (max_group_depth is 0)\<newline>''], new_context)"
  by (simp add: format_exc.simps chain_output_def format_blocks_unfold format_slots_unfold
      slot_count_def max_group_width_def group_enter_def group_head_def slot_enter_def
      slot_body_def getitem_def slot_header_def slot_closing_def slot_leave_def
      msg_out_def leaf_out_def emit_def new_context_def indent_def
      textwrap_indent_def splitlines_def is_linebreak_def eval_nat_numeral)

text \<open>
  C6, amended. With \<open>max_group_width\<close> zero, a group within the depth limit renders no
  numbered slot: with at least one child it renders its head and the one truncation slot
  (header \<open>...\<close>, the summary line, the closing line), and with no child its head only.
  With \<open>max_group_depth\<close> zero, a group met at a depth above 0 renders the
  depth-truncation line only. For all values of the two limits, zero and negative ones
  included, the call returns and raises nothing.
\<close>

theorem zero_or_negative_limits:
  "(exceptions exc = Some excs \<and> excs \<noteq> [] \<and> 0 \<le> exception_group_depth ctx
      \<and> exception_group_depth ctx \<le> mgd \<longrightarrow>
      format_blocks 0 mgd chain ctx [(None, exc)]
        = Inr (group_head ctx exc
               @ [indent (group_enter ctx) @ ''+-+---------------- ... ----------------\<newline>'',
                  ''  '' @ indent (group_enter ctx) @ ''| and '' @ str_int (int (length excs))
                    @ '' more exception'' @ (if 1 < length excs then ''s'' else []) @ ''\<newline>'',
                  ''  '' @ indent (group_enter ctx) @ ''+------------------------------------\<newline>''],
               ctx\<lparr>need_close := False\<rparr>)) \<and>
   (exceptions e = Some [] \<and> exception_group_depth ctx \<le> mgd \<longrightarrow>
      format_blocks 0 mgd chain ctx [(None, e)]
        = Inr (group_head ctx e, ctx\<lparr>need_close := False\<rparr>)) \<and>
   (exceptions g = Some excs' \<and> 0 < exception_group_depth ctx' \<longrightarrow>
      format_blocks mgw 0 chain ctx' [(None, g)]
        = Inr ([indent ctx' @ ''| ... (max_group_depth is 0)\<newline>''], ctx')) \<and>
   (\<exists>out ctx''. format_exc mgw mgd chain ctx exc = Inr (out, ctx''))"
proof (intro conjI impI)
  assume "exceptions exc = Some excs \<and> excs \<noteq> [] \<and> 0 \<le> exception_group_depth ctx
      \<and> exception_group_depth ctx \<le> mgd"
  then show "format_blocks 0 mgd chain ctx [(None, exc)]
        = Inr (group_head ctx exc
               @ [indent (group_enter ctx) @ ''+-+---------------- ... ----------------\<newline>'',
                  ''  '' @ indent (group_enter ctx) @ ''| and '' @ str_int (int (length excs))
                    @ '' more exception'' @ (if 1 < length excs then ''s'' else []) @ ''\<newline>'',
                  ''  '' @ indent (group_enter ctx) @ ''+------------------------------------\<newline>''],
               ctx\<lparr>need_close := False\<rparr>)"
    by (intro zero_width_group) simp_all
next
  assume "exceptions e = Some [] \<and> exception_group_depth ctx \<le> mgd"
  then show "format_blocks 0 mgd chain ctx [(None, e)]
        = Inr (group_head ctx e, ctx\<lparr>need_close := False\<rparr>)"
    by (intro zero_width_empty_group) simp_all
next
  assume "exceptions g = Some excs' \<and> 0 < exception_group_depth ctx'"
  then show "format_blocks mgw 0 chain ctx' [(None, g)]
        = Inr ([indent ctx' @ ''| ... (max_group_depth is 0)\<newline>''], ctx')"
    by (simp add: format_blocks_single_depth depth_out_0)
next
  show "\<exists>out ctx''. format_exc mgw mgd chain ctx exc = Inr (out, ctx'')"
    using restores_Inr[OF format_restores(1)] by blast
qed

theorem zero_or_negative_limits_witness:
  "exceptions (TracebackException None None False
        (Some [TracebackException None None False None [] [''ValueError: 1\<newline>''],
               TracebackException None None False None [] [''ValueError: 2\<newline>'']])
        [] [''ExceptionGroup: g (2 sub-exceptions)\<newline>'']) = Some [TracebackException None None False None [] [''ValueError: 1\<newline>''],
               TracebackException None None False None [] [''ValueError: 2\<newline>'']] \<and>
   [TracebackException None None False None [] [''ValueError: 1\<newline>''],
               TracebackException None None False None [] [''ValueError: 2\<newline>'']] \<noteq> [] \<and>
   (0::int) \<le> exception_group_depth new_context \<and>
   exception_group_depth new_context \<le> 10 \<and>
   exceptions (TracebackException None None False (Some []) [] [''ExceptionGroup: e\<newline>'']) = Some [] \<and>
   (0::int) < exception_group_depth (new_context\<lparr>exception_group_depth := 2\<rparr>) \<and>
   format_blocks 0 10 True new_context
     [(None, TracebackException None None False
        (Some [TracebackException None None False None [] [''ValueError: 1\<newline>''],
               TracebackException None None False None [] [''ValueError: 2\<newline>'']])
        [] [''ExceptionGroup: g (2 sub-exceptions)\<newline>''])]
     = Inr ([''  | ExceptionGroup: g (2 sub-exceptions)\<newline>'',
             ''  +-+---------------- ... ----------------\<newline>'',
             ''    | and 2 more exceptions\<newline>'',
             ''    +------------------------------------\<newline>''], new_context) \<and>
   format_blocks 0 10 True new_context [(None, TracebackException None None False (Some []) [] [''ExceptionGroup: e\<newline>''])]
     = Inr ([''  | ExceptionGroup: e\<newline>''], new_context) \<and>
   format_blocks (- 1) 0 True (new_context\<lparr>exception_group_depth := 2\<rparr>)
     [(None, TracebackException None None False
        (Some [TracebackException None None False None [] [''ValueError: 1\<newline>''],
               TracebackException None None False None [] [''ValueError: 2\<newline>'']])
        [] [''ExceptionGroup: g (2 sub-exceptions)\<newline>''])]
     = Inr ([''    | ... (max_group_depth is 0)\<newline>''],
            new_context\<lparr>exception_group_depth := 2\<rparr>)"
  using zero_or_negative_limits[of
      "TracebackException None None False
        (Some [TracebackException None None False None [] [''ValueError: 1\<newline>''],
               TracebackException None None False None [] [''ValueError: 2\<newline>'']])
        [] [''ExceptionGroup: g (2 sub-exceptions)\<newline>'']"
      "[TracebackException None None False None [] [''ValueError: 1\<newline>''],
               TracebackException None None False None [] [''ValueError: 2\<newline>'']]"
      new_context 10 True
      "TracebackException None None False (Some []) [] [''ExceptionGroup: e\<newline>'']"
      "TracebackException None None False
        (Some [TracebackException None None False None [] [''ValueError: 1\<newline>''],
               TracebackException None None False None [] [''ValueError: 2\<newline>'']])
        [] [''ExceptionGroup: g (2 sub-exceptions)\<newline>'']"
      "[TracebackException None None False None [] [''ValueError: 1\<newline>''],
               TracebackException None None False None [] [''ValueError: 2\<newline>'']]"
      "new_context\<lparr>exception_group_depth := 2\<rparr>" "- 1"]
  by (simp add: new_context_def group_head_def group_enter_def emit_def indent_def
      str_int_def digits10_small
      textwrap_indent_def splitlines_def is_linebreak_def eval_nat_numeral)

subsection \<open>The shape of the lines\<close>

lemma takeWhile_replicate_stop:
  "c \<noteq> x \<Longrightarrow> takeWhile (\<lambda>c. c = x) (replicate n x @ c # r) = replicate n x"
  by (induction n) auto

lemma dropWhile_replicate_stop:
  "c \<noteq> x \<Longrightarrow> dropWhile (\<lambda>c. c = x) (replicate n x @ c # r) = c # r"
  by (induction n) auto

lemma lead_spaces: "c \<noteq> CHR '' '' \<Longrightarrow> lead (spaces e @ c # r) = 2 * e"
  by (simp add: lead_def spaces_def takeWhile_replicate_stop)

lemma strip_spaces: "c \<noteq> CHR '' '' \<Longrightarrow> strip (spaces e @ c # r) = c # r"
  by (simp add: strip_def spaces_def dropWhile_replicate_stop)

lemma spaces_Suc: "spaces (Suc e) = ''  '' @ spaces e"
  by (simp add: spaces_def)

lemma spaces_Suc': "spaces (Suc e) = spaces e @ ''  ''"
proof -
  have "replicate (2 * e + 2) CHR '' '' = replicate (2 * e) CHR '' '' @ replicate 2 CHR '' ''"
    by (rule replicate_add)
  then show ?thesis by (simp add: spaces_def eval_nat_numeral)
qed

lemma indent_spaces: "exception_group_depth ctx = int d \<Longrightarrow> indent ctx = spaces d"
  by (simp add: spaces_def indent_nat)

lemma margin_line_sig: "margin_line e l \<Longrightarrow> lead l = 2 * e \<and> strip l ! 0 = CHR ''|''"
  by (auto simp: margin_line_def lead_spaces strip_spaces)

lemma closing_line_sig:
  "closing_line e l \<Longrightarrow>
     lead l = 2 * e \<and> strip l ! 0 = CHR ''+'' \<and> strip l ! 2 = CHR ''-'' \<and> strip l ! 17 = CHR ''-''"
  by (auto simp: closing_line_def lead_spaces strip_spaces)

lemma header_line_sig:
  "header_line e l \<Longrightarrow>
     (lead l = 2 * e \<and> strip l ! 0 = CHR ''+'' \<and> strip l ! 2 = CHR ''+'') \<or>
     (lead l = 2 * Suc e \<and> strip l ! 0 = CHR ''+'' \<and> strip l ! 2 = CHR ''-''
        \<and> strip l ! 17 = CHR '' '')"
proof -
  assume "header_line e l"
  then obtain t where
    "l = spaces e @ ''+-+---------------- '' @ t @ '' ----------------\<newline>''
     \<or> l = spaces e @ ''  +---------------- '' @ t @ '' ----------------\<newline>''"
    unfolding header_line_def by blast
  then show ?thesis
  proof
    assume "l = spaces e @ ''+-+---------------- '' @ t @ '' ----------------\<newline>''"
    then show ?thesis by (simp add: lead_spaces strip_spaces)
  next
    assume "l = spaces e @ ''  +---------------- '' @ t @ '' ----------------\<newline>''"
    then have "l = spaces (Suc e) @ ''+---------------- '' @ t @ '' ----------------\<newline>''"
      by (simp add: spaces_Suc')
    then show ?thesis by (simp add: lead_spaces strip_spaces)
  qed
qed

lemma header_not_deeper:
  assumes "header_line d h" and "framed (Suc d) h"
  shows False
proof -
  from assms(2) obtain e where e: "Suc d \<le> e"
    and k: "margin_line e h \<or> header_line e h \<or> closing_line e h"
    unfolding framed_def by blast
  from header_line_sig[OF assms(1)] k e show False
    by (auto dest!: margin_line_sig header_line_sig closing_line_sig)
qed

lemma header_not_margin: "header_line d h \<Longrightarrow> margin_line d h \<Longrightarrow> False"
  by (auto dest!: margin_line_sig header_line_sig)

lemma header_not_closing: "header_line d h \<Longrightarrow> closing_line e h \<Longrightarrow> False"
  by (auto dest!: header_line_sig closing_line_sig)

lemma closing_not_margin: "closing_line e h \<Longrightarrow> margin_line d h \<Longrightarrow> False"
  by (auto dest!: margin_line_sig closing_line_sig)

lemma all_framed_simps [simp]:
  "all_framed d []"
  "all_framed d (b # out) \<longleftrightarrow> (\<forall>l \<in> set (splitlines b). framed d l) \<and> all_framed d out"
  "all_framed d (a @ out) \<longleftrightarrow> all_framed d a \<and> all_framed d out"
  by (auto simp: all_framed_def)

lemma framed_mono: "d \<le> d' \<Longrightarrow> framed d' l \<Longrightarrow> framed d l"
  unfolding framed_def by (meson le_trans)

lemma all_framed_mono: "d \<le> d' \<Longrightarrow> all_framed d' out \<Longrightarrow> all_framed d out"
  by (auto simp: all_framed_def intro: framed_mono)

lemma framed_result_mono: "d \<le> d' \<Longrightarrow> framed_result d' r \<Longrightarrow> framed_result d r"
  by (auto simp: framed_result_def split: sum.splits intro: all_framed_mono)

lemma framed_result_yield_then:
  "all_framed d a \<Longrightarrow> framed_result d r \<Longrightarrow> framed_result d (yield_then a r)"
  by (auto simp: framed_result_def yield_then_def split: sum.splits)

lemma framed_result_Inr [simp]: "framed_result d (Inr (out, ctx)) = all_framed d out"
  by (simp add: framed_result_def)

lemma splitlines_single:
  assumes "\<forall>c \<in> set body. \<not> is_linebreak c"
  shows "splitlines (body @ ''\<newline>'') = [body @ ''\<newline>'']"
proof -
  have "splitlines_from [] (body @ ''\<newline>'') = splitlines_from ([] @ body) ''\<newline>''"
    by (rule splitlines_from_plain[OF assms])
  then show ?thesis by (simp add: splitlines_def)
qed

lemma spaces_plain: "\<forall>c \<in> set (spaces e). \<not> is_linebreak c"
  by (auto simp: spaces_def is_linebreak_def)

lemma emit_margin_lines:
  assumes "exception_group_depth ctx = int d" and "1 \<le> d"
  shows "\<forall>b \<in> set (emit ctx tg None). \<forall>l \<in> set (splitlines b). margin_line d l"
proof -
  let ?P = "spaces d @ ''| ''"
  have P: "margin_prefix ctx ''|'' = ?P"
    using assms by (simp add: margin_prefix_def indent_spaces)
  have plain: "\<forall>c \<in> set ?P. \<not> is_linebreak c"
    using spaces_plain[of d] by (auto simp: is_linebreak_def)
  have "\<forall>l \<in> set (splitlines (textwrap_indent t ?P)). margin_line d l" for t
    by (auto simp: splitlines_textwrap_indent[OF plain] margin_line_def)
  then show ?thesis
    by (cases tg) (auto simp: emit_Str emit_Strs P)
qed

lemma emit_framed:
  "exception_group_depth ctx = int d \<Longrightarrow> 1 \<le> d \<Longrightarrow> all_framed d (emit ctx tg None)"
  using emit_margin_lines[of ctx d tg] by (auto simp: all_framed_def framed_def)

lemma slot_header_line:
  assumes "exception_group_depth ctx = int d"
  shows "header_line d (slot_header mgw i ctx)"
    and "splitlines (slot_header mgw i ctx) = [slot_header mgw i ctx]"
proof -
  let ?t = "if \<not> mgw \<le> i then str_int (i + 1) else ''...''"
  let ?body = "spaces d @ (if i = 0 then ''+-'' else ''  '') @ ''+---------------- '' @ ?t
                @ '' ----------------''"
  have h: "slot_header mgw i ctx = ?body @ ''\<newline>''"
    using assms by (simp add: slot_header_def indent_spaces)
  have t: "?t = ''...'' \<or> (\<exists>k. ?t = str_int k)"
  proof (cases "mgw \<le> i")
    case True
    then show ?thesis by simp
  next
    case False
    then have "?t = str_int (i + 1)" by simp
    then show ?thesis by blast
  qed
  show "header_line d (slot_header mgw i ctx)"
    unfolding h header_line_def
  proof (intro exI[of _ ?t] conjI)
    show "?t = ''...'' \<or> (\<exists>k. ?t = str_int k)" by (rule t)
    show "?body @ ''\<newline>''
            = spaces d @ ''+-+---------------- '' @ ?t @ '' ----------------\<newline>''
        \<or> ?body @ ''\<newline>''
            = spaces d @ ''  +---------------- '' @ ?t @ '' ----------------\<newline>''"
      by simp
  qed
  have "\<forall>c \<in> set ?body. \<not> is_linebreak c"
    using spaces_plain[of d] str_int_plain[of "i + 1"] by (auto simp: is_linebreak_def)
  from splitlines_single[OF this] show "splitlines (slot_header mgw i ctx) = [slot_header mgw i ctx]"
    by (simp only: h)
qed

lemma header_line_single: "header_line e l \<Longrightarrow> splitlines l = [l]"
proof -
  assume "header_line e l"
  then obtain t where t: "t = ''...'' \<or> (\<exists>k. t = str_int k)"
    and l: "l = spaces e @ ''+-+---------------- '' @ t @ '' ----------------\<newline>''
         \<or> l = spaces e @ ''  +---------------- '' @ t @ '' ----------------\<newline>''"
    unfolding header_line_def by blast
  from t have tp: "\<forall>c \<in> set t. \<not> is_linebreak c"
  proof
    assume "t = ''...''"
    then show ?thesis by (simp add: is_linebreak_def)
  next
    assume "\<exists>k. t = str_int k"
    then obtain k where "t = str_int k" ..
    then show ?thesis using str_int_plain[of k] by simp
  qed
  from l show ?thesis
  proof
    assume l1: "l = spaces e @ ''+-+---------------- '' @ t @ '' ----------------\<newline>''"
    have "\<forall>c \<in> set (spaces e @ ''+-+---------------- '' @ t @ '' ----------------'').
        \<not> is_linebreak c"
      using spaces_plain[of e] tp by (auto simp: is_linebreak_def)
    from splitlines_single[OF this] show ?thesis by (simp add: l1)
  next
    assume l2: "l = spaces e @ ''  +---------------- '' @ t @ '' ----------------\<newline>''"
    have "\<forall>c \<in> set (spaces e @ ''  +---------------- '' @ t @ '' ----------------'').
        \<not> is_linebreak c"
      using spaces_plain[of e] tp by (auto simp: is_linebreak_def)
    from splitlines_single[OF this] show ?thesis by (simp add: l2)
  qed
qed

lemma closing_splitlines:
  "splitlines (spaces e @ ''+------------------------------------\<newline>'')
     = [spaces e @ ''+------------------------------------\<newline>'']"
  using splitlines_single[of "spaces e @ ''+------------------------------------''"] spaces_plain[of e]
  by (auto simp: is_linebreak_def)

lemma slot_closing_framed:
  assumes "exception_group_depth ctx3 = int (Suc d)"
  shows "all_framed d (slot_closing n i ctx3)"
proof -
  have "indent ctx3 = spaces (Suc d)" by (rule indent_spaces[OF assms])
  moreover have "framed d (spaces (Suc d) @ ''+------------------------------------\<newline>'')"
    unfolding framed_def closing_line_def by (rule exI[of _ "Suc d"]) simp
  ultimately show ?thesis
    by (simp add: slot_closing_def closing_splitlines)
qed

lemma slot_header_framed:
  "exception_group_depth ctx = int d \<Longrightarrow> all_framed d [slot_header mgw i ctx]"
  using slot_header_line[of ctx d mgw i] by (auto simp: framed_def)

lemma slot_body_restores:
  assumes "num_excs = int (length excs)" and "n = slot_count mgw excs" and "0 \<le> i" and "i < n"
  shows "restores c2 (slot_body mgw mgd chain c2 excs num_excs i)"
proof (cases "mgw \<le> i")
  case True
  then show ?thesis by (simp add: slot_body_def restores_def)
next
  case False
  have "i < int (length excs)"
    using assms False by (simp add: slot_index_in_range)
  then have "getitem excs i = Inr (excs ! nat i)"
    using assms(3) by (simp add: getitem_in_range)
  then show ?thesis
    using False format_restores(1)[of c2 mgw mgd chain "excs ! nat i"] by (simp add: slot_body_def)
qed

subsection \<open>Every rendered line is framed\<close>

lemma group_enter_nontop: "exception_group_depth ctx \<noteq> 0 \<Longrightarrow> group_enter ctx = ctx"
  by (simp add: group_enter_def)

lemma msg_out_framed:
  "exception_group_depth ctx = int d \<Longrightarrow> 1 \<le> d \<Longrightarrow> all_framed d (msg_out ctx msg)"
  by (cases msg) (simp_all add: msg_out_def emit_framed)

lemma leaf_out_framed:
  "exception_group_depth ctx = int d \<Longrightarrow> 1 \<le> d \<Longrightarrow> all_framed d (leaf_out ctx exc)"
  by (simp add: leaf_out_def emit_framed)

lemma depth_out_framed:
  "exception_group_depth ctx = int d \<Longrightarrow> 1 \<le> d \<Longrightarrow> all_framed d (depth_out mgd ctx)"
  by (simp add: depth_out_def emit_framed)

lemma group_head_framed:
  "exception_group_depth ctx = int d \<Longrightarrow> 1 \<le> d \<Longrightarrow> all_framed d (group_head ctx exc)"
  by (simp add: group_head_def group_enter_nontop emit_framed)

lemma more_out_framed:
  "exception_group_depth ctx = int d \<Longrightarrow> 1 \<le> d \<Longrightarrow> all_framed d (more_out k ctx)"
  by (simp add: more_out_def emit_framed)

lemma format_framed:
  "1 \<le> exception_group_depth ctx \<Longrightarrow>
     framed_result (nat (exception_group_depth ctx)) (format_exc mgw mgd chain ctx exc)"
  "1 \<le> exception_group_depth ctx \<Longrightarrow>
     framed_result (nat (exception_group_depth ctx)) (format_blocks mgw mgd chain ctx ps)"
  "1 \<le> exception_group_depth ctx \<Longrightarrow> num_excs = int (length excs) \<Longrightarrow>
   n = slot_count mgw excs \<Longrightarrow> 0 \<le> i \<Longrightarrow>
     framed_result (nat (exception_group_depth ctx))
       (format_slots mgw mgd chain ctx excs num_excs n i)"
proof (induction mgw mgd chain ctx exc and mgw mgd chain ctx ps and mgw mgd chain ctx excs num_excs n i
    rule: format_exc_format_blocks_format_slots.induct)
  case (1 mgw mgd chain ctx exc)
  then show ?case by (simp add: format_exc.simps)
next
  case (2 mgw mgd chain ctx)
  then show ?case by simp
next
  case (3 mgw mgd chain ctx msg exc rest)
  define d where "d = nat (exception_group_depth ctx)"
  have d: "exception_group_depth ctx = int d" "1 \<le> d"
    using 3(6) by (simp_all add: d_def)
  have nz: "exception_group_depth ctx \<noteq> 0" using 3(6) by simp
  show ?case
  proof (cases "exceptions exc")
    case None
    have "framed_result d (format_blocks mgw mgd chain ctx rest)"
      unfolding d_def by (rule 3(1)[OF refl None 3(6)])
    then show ?thesis
      using None d
      by (simp add: format_blocks_unfold d_def[symmetric] framed_result_yield_then
          msg_out_framed leaf_out_framed)
  next
    case (Some excs)
    show ?thesis
    proof (cases "mgd < exception_group_depth ctx")
      case True
      have "framed_result d (format_blocks mgw mgd chain ctx rest)"
        unfolding d_def by (rule 3(2)[OF refl Some True 3(6)])
      then show ?thesis
        using Some True d
        by (simp add: format_blocks_unfold d_def[symmetric] framed_result_yield_then
            msg_out_framed depth_out_framed)
    next
      case False
      let ?ctx2 = "(group_enter ctx)\<lparr>need_close := False\<rparr>"
      let ?slots = "format_slots mgw mgd chain ?ctx2 excs (int (length excs)) (slot_count mgw excs) 0"
      have d2: "exception_group_depth ?ctx2 = exception_group_depth ctx"
        using nz by (simp add: group_enter_def)
      have fs: "framed_result (nat (exception_group_depth ?ctx2)) ?slots"
        unfolding group_enter_def slot_count_def
        by (rule 3(3)[OF refl Some False refl refl refl refl refl refl _ refl])
           (use nz 3(6) in \<open>simp_all add: slot_count_def\<close>)
      obtain out3 ctx3 where r: "?slots = Inr (out3, ctx3)"
        and d3: "exception_group_depth ctx3 = exception_group_depth ?ctx2"
        using format_restores(3)[OF refl refl, of 0 ?ctx2 mgw mgd chain excs]
        by (auto elim: restoresE)
      have o3: "all_framed d out3" using fs r d2 by (simp add: d_def)
      have "framed_result (nat (exception_group_depth ctx3)) (format_blocks mgw mgd chain ctx3 rest)"
        by (rule 3(5)[OF refl Some False refl refl refl refl refl refl
              r[unfolded group_enter_def slot_count_def] refl nz])
           (use d3 d2 3(6) in simp)
      then have "framed_result d (format_blocks mgw mgd chain ctx3 rest)"
        using d3 d2 by (simp add: d_def)
      then show ?thesis
        using Some False nz r o3 d
        by (simp add: format_blocks_unfold d_def[symmetric] framed_result_yield_then
            msg_out_framed group_head_framed)
    qed
  qed
next
  case (4 mgw mgd chain ctx excs num_excs n i)
  define d where "d = nat (exception_group_depth ctx)"
  have d: "exception_group_depth ctx = int d" "1 \<le> d"
    using 4(3) by (simp_all add: d_def)
  show ?case
  proof (cases "i < n")
    case False
    then show ?thesis by (simp add: format_slots_unfold)
  next
    case True
    let ?ctx2 = "slot_enter n i ctx"
    let ?body = "slot_body mgw mgd chain ?ctx2 excs num_excs i"
    have d2: "exception_group_depth ?ctx2 = int (Suc d)" "1 \<le> exception_group_depth ?ctx2"
      using d by simp_all
    obtain body ctx3 where r: "?body = Inr (body, ctx3)"
      and d3: "exception_group_depth ctx3 = exception_group_depth ?ctx2"
      using slot_body_restores[OF 4(4) 4(5) 4(6) True, of ?ctx2 mgd chain]
      by (auto elim: restoresE)
    have "all_framed (Suc d) body"
    proof (cases "mgw \<le> i")
      case t: True
      then show ?thesis
        using r d2 by (auto simp: slot_body_def intro: more_out_framed)
    next
      case f: False
      then obtain child where g: "getitem excs i = Inr child"
        and fc: "format_exc mgw mgd chain ?ctx2 child = Inr (body, ctx3)"
        using r by (auto simp: slot_body_def split: sum.splits)
      have "framed_result (nat (exception_group_depth ?ctx2)) (format_exc mgw mgd chain ?ctx2 child)"
        unfolding slot_enter_def Let_def
        by (rule 4(1)[OF True refl refl refl refl refl refl f g])
           (use 4(3) in simp)
      moreover have "nat (exception_group_depth ?ctx2) = Suc d"
        by (simp only: d2(1) nat_int)
      ultimately show ?thesis using fc by simp
    qed
    then have b: "all_framed d body" by (rule all_framed_mono[rotated]) simp
    have c: "all_framed d (slot_closing n i ctx3)"
      by (rule slot_closing_framed) (simp add: d3 d)
    have "framed_result (nat (exception_group_depth (slot_leave n i ctx3)))
            (format_slots mgw mgd chain (slot_leave n i ctx3) excs num_excs n (i + 1))"
      unfolding slot_leave_def Let_def
    proof (rule 4(2)[OF True refl refl refl refl refl refl _ refl refl refl refl _ 4(4) 4(5)])
      show "0 \<le> i + 1" using 4(6) by simp
    next
      show "(if \<not> mgw \<le> i
             then case getitem excs i of Inl x \<Rightarrow> Inl x
                  | Inr x \<Rightarrow>
                      format_exc mgw mgd chain
                       ((if i = n - 1 then ctx\<lparr>need_close := True\<rparr> else ctx)
                        \<lparr>exception_group_depth :=
                           exception_group_depth
                            (if i = n - 1 then ctx\<lparr>need_close := True\<rparr> else ctx) + 1\<rparr>)
                       x
             else let remaining = num_excs - mgw;
                      plural = if 1 < remaining then ''s'' else []
                  in Inr (emit
                           ((if i = n - 1 then ctx\<lparr>need_close := True\<rparr> else ctx)
                            \<lparr>exception_group_depth :=
                               exception_group_depth
                                (if i = n - 1 then ctx\<lparr>need_close := True\<rparr> else ctx) + 1\<rparr>)
                           (Str (''and '' @ str_int remaining @ '' more exception'' @ plural
                                 @ ''\<newline>''))
                           None,
                          (if i = n - 1 then ctx\<lparr>need_close := True\<rparr> else ctx)
                          \<lparr>exception_group_depth :=
                             exception_group_depth
                              (if i = n - 1 then ctx\<lparr>need_close := True\<rparr> else ctx) + 1\<rparr>))
            = Inr (body, ctx3)"
        using r unfolding slot_body_def slot_enter_def more_out_def Let_def .
    next
      show "1 \<le> exception_group_depth
              ((if i = n - 1 \<and> need_close ctx3 then ctx3\<lparr>need_close := False\<rparr> else ctx3)
               \<lparr>exception_group_depth :=
                  exception_group_depth
                   (if i = n - 1 \<and> need_close ctx3 then ctx3\<lparr>need_close := False\<rparr> else ctx3)
                  - 1\<rparr>)"
        using d3 d2 d by simp
    qed
    moreover have "nat (exception_group_depth (slot_leave n i ctx3)) = d"
      using d3 d by simp
    ultimately have rest: "framed_result d
        (format_slots mgw mgd chain (slot_leave n i ctx3) excs num_excs n (i + 1))"
      by simp
    have "all_framed d [slot_header mgw i ctx]"
      by (rule slot_header_framed[OF d(1)])
    then have "all_framed d (slot_header mgw i ctx # body @ slot_closing n i ctx3)"
      using b c by simp
    from framed_result_yield_then[OF this rest] show ?thesis
      using True r by (simp add: format_slots_unfold[of _ _ _ ctx] d_def[symmetric])
  qed
qed

subsection \<open>The margin and the frame lines\<close>

lemma toplevel_header_line:
  "exception_group_depth ctx = 0 \<Longrightarrow>
   emit (group_enter ctx) (Str ''Exception Group Traceback (most recent call last):\<newline>'')
     (Some ''+'')
     = [''  + Exception Group Traceback (most recent call last):\<newline>'']"
  using textwrap_indent_line[of "''Exception Group Traceback (most recent call last):''"
      "''  + ''"]
  by (simp add: emit_Str margin_prefix_def group_enter_def indent_def is_linebreak_def
      eval_nat_numeral)

lemma toplevel_header_splitlines:
  "splitlines ''  + Exception Group Traceback (most recent call last):\<newline>''
     = [''  + Exception Group Traceback (most recent call last):\<newline>'']"
  using splitlines_single[of "''  + Exception Group Traceback (most recent call last):''"]
  by (simp add: is_linebreak_def)

lemma toplevel_group_framed:
  assumes "exception_group_depth ctx = 0" and "exceptions exc = Some excs" and "0 \<le> mgd"
    and "format_blocks mgw mgd chain ctx [(None, exc)] = Inr (out, ctx')"
  shows "\<forall>b \<in> set out. \<forall>l \<in> set (splitlines b).
           framed 1 l \<or> l = ''  + Exception Group Traceback (most recent call last):\<newline>''"
proof -
  let ?c1 = "group_enter ctx"
  let ?c2 = "?c1\<lparr>need_close := False\<rparr>"
  let ?slots = "format_slots mgw mgd chain ?c2 excs (int (length excs)) (slot_count mgw excs) 0"
  have d1: "exception_group_depth ?c1 = int 1" "exception_group_depth ?c2 = 1"
    using assms(1) by (simp_all add: group_enter_def)
  obtain out3 ctx3 where r: "?slots = Inr (out3, ctx3)"
    and d3: "exception_group_depth ctx3 = exception_group_depth ?c2"
    using format_restores(3)[OF refl refl, of 0 ?c2 mgw mgd chain excs]
    by (auto elim: restoresE)
  have "framed_result (nat (exception_group_depth ?c2)) ?slots"
    by (rule format_framed(3)) (simp_all add: d1)
  then have o3: "all_framed 1 out3" using r d1 by simp
  have out: "out = group_head ctx exc @ out3"
    using assms r d3 d1 by (simp add: format_blocks_unfold)
  have e: "all_framed 1 (emit ?c1 tg None)" for tg
    by (rule emit_framed[OF d1(1)]) simp
  have "\<forall>b \<in> set (group_head ctx exc). \<forall>l \<in> set (splitlines b).
           framed 1 l \<or> l = ''  + Exception Group Traceback (most recent call last):\<newline>''"
    using e assms(1)
    by (auto simp: group_head_def toplevel_header_line toplevel_header_splitlines all_framed_def)
  then show ?thesis
    using o3 by (auto simp: out all_framed_def)
qed


subsection \<open>The depth at which each string is yielded\<close>


lemma erase_simps [simp]:
  "erase (Inl e) = Inl e"
  "erase (Inr (items, ctx)) = Inr (map snd items, ctx)"
  by (simp_all add: erase_def)

lemma erase_trace_then [simp]:
  "erase (trace_then items r) = yield_then (map snd items) (erase r)"
  by (cases r) (auto simp: trace_then_def)

lemma map_snd_tag [simp]: "map snd (tag ctx out) = out"
  by (simp add: tag_def comp_def)

lemma erase_Inr: "erase r = Inr (out, ctx) \<Longrightarrow> \<exists>items. r = Inr (items, ctx) \<and> out = map snd items"
  by (cases r) auto

lemma erase_Inl: "erase r = Inl e \<Longrightarrow> r = Inl e"
  by (cases r) auto


lemma items_ok_simps [simp]:
  "items_ok []"
  "items_ok (a @ b) \<longleftrightarrow> items_ok a \<and> items_ok b"
  by (auto simp: items_ok_def)

lemma ok_result_simps [simp]:
  "ok_result (Inl e)"
  "ok_result (Inr (items, ctx)) = items_ok items"
  by (simp_all add: ok_result_def)





lemma tag_Nil [simp]: "tag ctx [] = []"
  by (simp add: tag_def)











end
